theory Spec2Isabelle
  imports Main
begin

section \<open>JavaScript values\<close>

text \<open>
  The exporter handles whatever JSON the upstream API sends, so every order, line item
  and shipment is a dynamically typed value. A value is one of the JSON shapes plus
  \<open>undefined\<close>. An object is the list of its own properties in enumeration order; a
  property read takes the first entry with the key. Numbers are the integer-valued ones
  (fractions, NaN and the exponent rendering of very large numbers are left out). A string is
  kept as the bytes of its UTF-8 encoding; a byte that is not part of a well-formed sequence
  counts as a character of its own, with the code of the byte (so \<open>0xA0\<close> alone is the
  no-break space, as the two bytes \<open>0xC2 0xA0\<close> are).
\<close>

datatype jsval =
    Undefined
  | Null
  | Bool bool
  | Num int
  | Str string
  | Arr "jsval list"
  | Obj "(string \<times> jsval) list"

text \<open>Exceptions of the program: a \<open>TypeError\<close> of the runtime (a property read on
  \<open>null\<close> or \<open>undefined\<close>, a method call on a value that has no such method), the
  error that \<open>safeFetch\<close> builds from a non-2xx response, the exception of the transport,
  and the rejection of \<open>res.json()\<close> on a body that is not JSON.\<close>

datatype error =
    TypeError
  | HttpError nat string string
  | TransportError string
  | JsonError

definition bindE :: "error + 'a \<Rightarrow> ('a \<Rightarrow> error + 'b) \<Rightarrow> error + 'b" where
  "bindE m f = (case m of Inl e \<Rightarrow> Inl e | Inr x \<Rightarrow> f x)"

fun mapE :: "('a \<Rightarrow> error + 'b) \<Rightarrow> 'a list \<Rightarrow> error + 'b list" where
  "mapE f [] = Inr []"
| "mapE f (x # xs) =
     (case f x of Inl e \<Rightarrow> Inl e
      | Inr y \<Rightarrow> (case mapE f xs of Inl e \<Rightarrow> Inl e | Inr ys \<Rightarrow> Inr (y # ys)))"

subsection \<open>Truthiness and the short-circuit operators\<close>

fun truthy :: "jsval \<Rightarrow> bool" where
  "truthy Undefined = False"
| "truthy Null = False"
| "truthy (Bool b) = b"
| "truthy (Num n) = (n \<noteq> 0)"
| "truthy (Str s) = (s \<noteq> [])"
| "truthy (Arr xs) = True"
| "truthy (Obj kvs) = True"

text \<open>\<open>a || b\<close> and \<open>a && b\<close>.\<close>

definition js_or :: "jsval \<Rightarrow> jsval \<Rightarrow> jsval" where
  "js_or a b = (if truthy a then a else b)"

definition js_and :: "jsval \<Rightarrow> jsval \<Rightarrow> jsval" where
  "js_and a b = (if truthy a then b else a)"

definition nullish :: "jsval \<Rightarrow> bool" where
  "nullish v = (v = Undefined \<or> v = Null)"

subsection \<open>Conversion to string\<close>

definition digit_char :: "nat \<Rightarrow> char" where
  "digit_char d = ''0123456789'' ! (d mod 10)"

fun digits :: "nat \<Rightarrow> string" where
  "digits n = (if n < 10 then [digit_char n] else digits (n div 10) @ [digit_char n])"

definition show_int :: "int \<Rightarrow> string" where
  "show_int n = (if n < 0 then CHR ''-'' # digits (nat (- n)) else digits (nat n))"

text \<open>\<open>sep\<close>-separated concatenation, the string part of \<open>Array.prototype.join\<close>.\<close>

fun intercalate :: "string \<Rightarrow> string list \<Rightarrow> string" where
  "intercalate sep [] = []"
| "intercalate sep [x] = x"
| "intercalate sep (x # y # ys) = x @ sep @ intercalate sep (y # ys)"

text \<open>\<open>String(v)\<close>, which is also what a template literal and \<open>join\<close> apply. An array
  renders as its elements joined by a comma, \<open>null\<close> and \<open>undefined\<close> elements as
  nothing; an object as \<open>[object Object]\<close> (objects parsed from JSON that carry their
  own \<open>toString\<close> or \<open>valueOf\<close> entry are left out).\<close>

fun ToString :: "jsval \<Rightarrow> string" where
  "ToString Undefined = ''undefined''"
| "ToString Null = ''null''"
| "ToString (Bool b) = (if b then ''true'' else ''false'')"
| "ToString (Num n) = show_int n"
| "ToString (Str s) = s"
| "ToString (Arr xs) =
     intercalate '','' (map (\<lambda>x. if x = Undefined \<or> x = Null then [] else ToString x) xs)"
| "ToString (Obj kvs) = ''[object Object]''"

text \<open>\<open>xs.join(sep)\<close>.\<close>

definition js_join :: "string \<Rightarrow> jsval list \<Rightarrow> string" where
  "js_join sep xs = intercalate sep (map (\<lambda>x. if nullish x then [] else ToString x) xs)"

subsection \<open>Characters and \<open>trim\<close>\<close>

definition continuation :: "char \<Rightarrow> bool" where
  "continuation c = (128 \<le> (of_char c :: nat) \<and> (of_char c :: nat) < 192)"

text \<open>The number of bytes of the character that a string starts with: a well-formed UTF-8
  sequence of one to four bytes, or a single stray byte.\<close>

fun char_len :: "string \<Rightarrow> nat" where
  "char_len [] = 0"
| "char_len (c # cs) =
     (let n = (of_char c :: nat) in
      if 194 \<le> n \<and> n < 224 \<and> list_all continuation (take 1 cs) \<and> 1 \<le> length cs then 2
      else if 224 \<le> n \<and> n < 240 \<and> list_all continuation (take 2 cs) \<and> 2 \<le> length cs then 3
      else if 240 \<le> n \<and> n < 245 \<and> list_all continuation (take 3 cs) \<and> 3 \<le> length cs then 4
      else 1)"

text \<open>The characters of a string, in order.\<close>

function chars_of :: "string \<Rightarrow> string list" where
  "chars_of s = (if s = [] then [] else take (char_len s) s # chars_of (drop (char_len s) s))"
  by pat_completeness auto
termination
  by (relation "measure length") (auto simp: Let_def neq_Nil_conv)

declare chars_of.simps [simp del]

text \<open>
  The characters that \<open>String.prototype.trim\<close> strips, the white space and the line
  terminators of the language: U+0009 to U+000D, U+0020, U+00A0, U+1680, U+2000 to U+200A,
  U+2028, U+2029, U+202F, U+205F, U+3000 and U+FEFF.
\<close>

definition js_whitespace :: "string \<Rightarrow> bool" where
  "js_whitespace c =
     (c \<in> set [[CHR 0x09], [CHR 0x0A], [CHR 0x0B], [CHR 0x0C], [CHR 0x0D], [CHR 0x20],
                [CHR 0xA0], [CHR 0xC2, CHR 0xA0],
                [CHR 0xE1, CHR 0x9A, CHR 0x80],
                [CHR 0xE2, CHR 0x80, CHR 0x80], [CHR 0xE2, CHR 0x80, CHR 0x81],
                [CHR 0xE2, CHR 0x80, CHR 0x82], [CHR 0xE2, CHR 0x80, CHR 0x83],
                [CHR 0xE2, CHR 0x80, CHR 0x84], [CHR 0xE2, CHR 0x80, CHR 0x85],
                [CHR 0xE2, CHR 0x80, CHR 0x86], [CHR 0xE2, CHR 0x80, CHR 0x87],
                [CHR 0xE2, CHR 0x80, CHR 0x88], [CHR 0xE2, CHR 0x80, CHR 0x89],
                [CHR 0xE2, CHR 0x80, CHR 0x8A],
                [CHR 0xE2, CHR 0x80, CHR 0xA8], [CHR 0xE2, CHR 0x80, CHR 0xA9],
                [CHR 0xE2, CHR 0x80, CHR 0xAF],
                [CHR 0xE2, CHR 0x81, CHR 0x9F],
                [CHR 0xE3, CHR 0x80, CHR 0x80],
                [CHR 0xEF, CHR 0xBB, CHR 0xBF]])"

definition trim :: "string \<Rightarrow> string" where
  "trim s = concat (rev (dropWhile js_whitespace (rev (dropWhile js_whitespace (chars_of s)))))"

text \<open>\<open>v.trim()\<close> on a value: only a string has the method.\<close>

fun trim_method :: "jsval \<Rightarrow> error + string" where
  "trim_method (Str s) = Inr (trim s)"
| "trim_method _ = Inl TypeError"

subsection \<open>Property reads\<close>

definition own_lookup :: "(string \<times> jsval) list \<Rightarrow> string \<Rightarrow> jsval" where
  "own_lookup kvs k = (case map_of kvs k of None \<Rightarrow> Undefined | Some v \<Rightarrow> v)"

text \<open>The own enumerable properties of a value, as \<open>Object.assign\<close> and
  \<open>Object.entries\<close> see them: the entries of an object, the indexed elements of an
  array, the indexed characters of a string, nothing for the other primitives. (A
  character outside the Basic Multilingual Plane counts once here, where the code counts
  its two surrogates.)\<close>

fun own_props :: "jsval \<Rightarrow> (string \<times> jsval) list" where
  "own_props (Obj kvs) = kvs"
| "own_props (Arr xs) = zip (map digits [0..<length xs]) xs"
| "own_props (Str s) = zip (map digits [0..<length (chars_of s)]) (map Str (chars_of s))"
| "own_props _ = []"

text \<open>\<open>v[k]\<close> on a value that is neither \<open>null\<close> nor \<open>undefined\<close>. The keys the
  program reads are field names of the upstream records; inherited methods are not
  values of the model.\<close>

fun member :: "jsval \<Rightarrow> string \<Rightarrow> jsval" where
  "member (Obj kvs) k = own_lookup kvs k"
| "member (Arr xs) k = (if k = ''length'' then Num (int (length xs)) else own_lookup (own_props (Arr xs)) k)"
| "member (Str s) k =
     (if k = ''length'' then Num (int (length (chars_of s))) else own_lookup (own_props (Str s)) k)"
| "member _ k = Undefined"

text \<open>\<open>v.k\<close> in general: a read on \<open>null\<close> or \<open>undefined\<close> throws.\<close>

definition read_prop :: "jsval \<Rightarrow> string \<Rightarrow> error + jsval" where
  "read_prop v k = (if nullish v then Inl TypeError else Inr (member v k))"

text \<open>\<open>a.k1 || a.k2 || ... || d\<close> on a value that can be read.\<close>

fun first_truthy :: "jsval \<Rightarrow> string list \<Rightarrow> jsval \<Rightarrow> jsval" where
  "first_truthy v [] d = d"
| "first_truthy v (k # ks) d = js_or (member v k) (first_truthy v ks d)"

section \<open>Alias resolution\<close>

text \<open>
  \<^verbatim>\<open>const get = (obj, ...keys) => {
    for (const k of keys) {
      if (!obj) continue;
      if (obj[k] !== undefined && obj[k] !== null && String(obj[k]).trim() !== '') return obj[k];
    }
    return '';
  };\<close>
  in \<open>composeAddressBlob\<close>, and the same function under the name \<open>pick\<close> in the
  \<open>/api/run\<close> handler.
\<close>

fun get :: "jsval \<Rightarrow> string list \<Rightarrow> jsval" where
  "get obj [] = Str []"
| "get obj (k # ks) =
     (if \<not> truthy obj then get obj ks
      else if member obj k \<noteq> Undefined \<and> member obj k \<noteq> Null
              \<and> trim (ToString (member obj k)) \<noteq> [] then member obj k
      else get obj ks)"

fun pick :: "jsval \<Rightarrow> string list \<Rightarrow> jsval" where
  "pick obj [] = Str []"
| "pick obj (k # ks) =
     (if \<not> truthy obj then pick obj ks
      else (let v = member obj k in
            if v \<noteq> Undefined \<and> v \<noteq> Null \<and> trim (ToString v) \<noteq> [] then v
            else pick obj ks))"

text \<open>A blank value: \<open>null\<close>, \<open>undefined\<close>, or a string of
  white space only (the empty string among them).\<close>

definition blank :: "jsval \<Rightarrow> bool" where
  "blank v = (case v of Undefined \<Rightarrow> True | Null \<Rightarrow> True
              | Str s \<Rightarrow> list_all js_whitespace (chars_of s) | _ \<Rightarrow> False)"

text \<open>A value that is not blank: a string with a character that is not white space, a
  number, a boolean, an object, and an array that prints as such a string (the empty
  array prints as the empty string).\<close>

definition filled :: "jsval \<Rightarrow> bool" where
  "filled v = (case v of Undefined \<Rightarrow> False | Null \<Rightarrow> False
               | Str s \<Rightarrow> list_ex (\<lambda>c. \<not> js_whitespace c) (chars_of s)
               | Arr xs \<Rightarrow> list_ex (\<lambda>c. \<not> js_whitespace c) (chars_of (ToString (Arr xs)))
               | _ \<Rightarrow> True)"

text \<open>An address whose city is a tab and a no-break space.\<close>

definition address_sample :: jsval where
  "address_sample = Obj [(''city'', Str [CHR 0x09, CHR 0xC2, CHR 0xA0]), (''town'', Str ''B''),
                         (''zip'', Null)]"

section \<open>The retrying request executor\<close>

text \<open>
  What \<open>fetch\<close> resolves to: the status line and the two readings of the body that the
  program uses, \<open>res.text()\<close> and \<open>res.json()\<close>, each \<open>None\<close> when the promise rejects.
\<close>

record response =
  status :: nat
  statusText :: string
  body_text :: "string option"
  body_json :: "jsval option"

definition ok :: "response \<Rightarrow> bool" where
  "ok res = (200 \<le> status res \<and> status res < 300)"

text \<open>The URL of a request, kept in its parts: \<open>`${base}${path}?${qs.toString()}`\<close>,
  the query as the list of pairs appended to the \<open>URLSearchParams\<close>. Every request is
  a \<open>GET\<close>.\<close>

record request =
  base :: string
  path :: string
  query :: "(string \<times> string) list"

datatype outcome = Responded response | Failed string

text \<open>The upstream server and the transport: the outcome of attempt \<open>i\<close> (counted from
  0 within one call of \<open>safeFetch\<close>) at a request.\<close>

type_synonym network = "request \<Rightarrow> nat \<Rightarrow> outcome"

datatype event = Attempt request | Sleep nat

text \<open>
  \<^verbatim>\<open>async function safeFetch(url, opts = {}, retries = 2, delay = 500) {
    for (let i = 0; i <= retries; i++) {
      try {
        const res = await fetch(url, opts);
        if (res.ok) return res;
        const txt = await res.text().catch(() => '');
        const err = new Error(`HTTP ${res.status} ${res.statusText} - ${txt}`);
        if (i === retries) throw err;
      } catch (err) {
        if (i === retries) throw err;
      }
      await sleep(delay);
    }
  }\<close>
  The result is the response, or \<open>undefined\<close> (\<open>None\<close>) when the loop runs out, or the
  error thrown; with it the calls of \<open>fetch\<close> and \<open>sleep\<close> in the order they happen.
\<close>

function safeFetch_loop ::
  "network \<Rightarrow> request \<Rightarrow> nat \<Rightarrow> nat \<Rightarrow> nat \<Rightarrow> (error + response option) \<times> event list" where
  "safeFetch_loop net url retries delay i =
     (if i \<le> retries then
        (case net url i of
           Responded res \<Rightarrow>
             if ok res then (Inr (Some res), [Attempt url])
             else
               (let txt = (case body_text res of None \<Rightarrow> [] | Some t \<Rightarrow> t);
                    err = HttpError (status res) (statusText res) txt
                in if i = retries then (Inl err, [Attempt url])
                   else (case safeFetch_loop net url retries delay (i + 1) of
                           (r, tr) \<Rightarrow> (r, Attempt url # Sleep delay # tr)))
         | Failed msg \<Rightarrow>
             if i = retries then (Inl (TransportError msg), [Attempt url])
             else (case safeFetch_loop net url retries delay (i + 1) of
                     (r, tr) \<Rightarrow> (r, Attempt url # Sleep delay # tr)))
      else (Inr None, []))"
  by pat_completeness auto
termination
  by (relation "measure (\<lambda>(net, url, retries, delay, i). Suc retries - i)") auto

definition safeFetch :: "network \<Rightarrow> request \<Rightarrow> nat \<Rightarrow> nat \<Rightarrow> (error + response option) \<times> event list" where
  "safeFetch net url retries delay = safeFetch_loop net url retries delay 0"

text \<open>The attempt succeeded with a 2xx status.\<close>

fun succeeded :: "outcome \<Rightarrow> bool" where
  "succeeded (Responded res) = ok res"
| "succeeded (Failed msg) = False"

text \<open>The error that a failed attempt leaves: the status, status text and response text
  of a non-2xx response, or the transport's exception.\<close>

fun error_of :: "outcome \<Rightarrow> error" where
  "error_of (Responded res) =
     HttpError (status res) (statusText res) (case body_text res of None \<Rightarrow> [] | Some t \<Rightarrow> t)"
| "error_of (Failed msg) = TransportError msg"

fun response_of :: "outcome \<Rightarrow> response option" where
  "response_of (Responded res) = Some res"
| "response_of (Failed msg) = None"

section \<open>The paginated fetcher\<close>

text \<open>\<open>process.env.BRIGHTSITES_SUBDOMAIN\<close> and \<open>process.env.BRIGHTSITES_API_TOKEN\<close>: a
  string, or \<open>undefined\<close> when not set.\<close>

record env =
  SUBDOMAIN :: jsval
  TOKEN :: jsval

text \<open>\<open>target[k] = v\<close> on a plain object, and \<open>Object.assign(target, ...sources)\<close>.\<close>

fun set_prop :: "(string \<times> jsval) list \<Rightarrow> string \<Rightarrow> jsval \<Rightarrow> (string \<times> jsval) list" where
  "set_prop [] k v = [(k, v)]"
| "set_prop ((k', v') # kvs) k v =
     (if k' = k then (k, v) # kvs else (k', v') # set_prop kvs k v)"

definition assign_from :: "(string \<times> jsval) list \<Rightarrow> jsval \<Rightarrow> (string \<times> jsval) list" where
  "assign_from target src = foldl (\<lambda>t (k, v). set_prop t k v) target (own_props src)"

definition object_assign :: "(string \<times> jsval) list \<Rightarrow> jsval list \<Rightarrow> (string \<times> jsval) list" where
  "object_assign target sources = foldl assign_from target sources"

fun is_array :: "jsval \<Rightarrow> bool" where
  "is_array (Arr xs) = True"
| "is_array _ = False"

fun elements :: "jsval \<Rightarrow> jsval list" where
  "elements (Arr xs) = xs"
| "elements _ = []"

definition api_base :: "jsval \<Rightarrow> string" where
  "api_base subdomain = ''https://'' @ ToString subdomain @ ''.mybrightsites.com/api/v2.6.1''"

text \<open>The request of one page: lines 37 to 45 of \<open>fetchAllPages\<close>. The options are an
  object: the handler passes \<open>{ subdomain, token }\<close>, and the default of the parameter
  stands in for \<open>undefined\<close>. Options that are \<open>null\<close>, which no caller passes, make the
  code throw at \<open>opts.token\<close>; here they read as an object without entries.\<close>

definition page_request :: "env \<Rightarrow> string \<Rightarrow> jsval \<Rightarrow> nat \<Rightarrow> jsval \<Rightarrow> nat \<Rightarrow> request" where
  "page_request e pth params pageSize opts page =
     (let token = js_or (member opts ''token'') (TOKEN e);
          subdomain = js_or (member opts ''subdomain'') (SUBDOMAIN e);
          b = (if truthy subdomain then api_base subdomain else api_base (SUBDOMAIN e));
          p = object_assign [] [params,
                Obj [(''page'', Num (int page)), (''per_page'', Num (int pageSize)), (''token'', token)]];
          qs = map (\<lambda>(k, v). (k, ToString v))
                 (filter (\<lambda>(k, v). v \<noteq> Undefined \<and> v \<noteq> Null \<and> v \<noteq> Str []) p)
      in \<lparr> base = b, path = pth, query = qs \<rparr>)"

text \<open>The array of a response body: the body itself, or the array under \<open>orders\<close>,
  \<open>items\<close>, \<open>data\<close> or \<open>results\<close>, or the first array among the values of the object,
  or the empty array.\<close>

definition extract_array :: "jsval \<Rightarrow> jsval list" where
  "extract_array json =
     (case json of
        Arr xs \<Rightarrow> xs
      | Obj kvs \<Rightarrow>
          if is_array (own_lookup kvs ''orders'') then elements (own_lookup kvs ''orders'')
          else if is_array (own_lookup kvs ''items'') then elements (own_lookup kvs ''items'')
          else if is_array (own_lookup kvs ''data'') then elements (own_lookup kvs ''data'')
          else if is_array (own_lookup kvs ''results'') then elements (own_lookup kvs ''results'')
          else (case filter is_array (map snd kvs) of [] \<Rightarrow> [] | v # _ \<Rightarrow> elements v)
      | _ \<Rightarrow> [])"

text \<open>
  The loop of \<open>fetchAllPages\<close>, from the page \<open>page\<close> with \<open>out\<close> accumulated. It runs
  for as long as the server keeps sending full pages, so it may not return: \<open>None\<close>.
  Beside the result (the accumulated items, or the error thrown by \<open>safeFetch\<close> or by
  \<open>res.json()\<close>) it returns the requests handed to \<open>safeFetch\<close>, one for each page.
\<close>

partial_function (option) fetchAllPages_loop ::
  "env \<Rightarrow> network \<Rightarrow> string \<Rightarrow> jsval \<Rightarrow> nat \<Rightarrow> jsval \<Rightarrow> nat \<Rightarrow> jsval list \<Rightarrow> request list
     \<Rightarrow> ((error + jsval list) \<times> request list) option" where
  "fetchAllPages_loop e net pth params pageSize opts page out calls =
     (let url = page_request e pth params pageSize opts page in
      case fst (safeFetch net url 2 500) of
        Inl err \<Rightarrow> Some (Inl err, calls @ [url])
      | Inr None \<Rightarrow> Some (Inr out, calls @ [url])
      | Inr (Some res) \<Rightarrow>
          (case body_json res of
             None \<Rightarrow> Some (Inl JsonError, calls @ [url])
           | Some json \<Rightarrow>
               (let arr = extract_array json in
                if arr = [] then Some (Inr out, calls @ [url])
                else if length arr < pageSize then Some (Inr (out @ arr), calls @ [url])
                else fetchAllPages_loop e net pth params pageSize opts (page + 1) (out @ arr)
                       (calls @ [url]))))"

definition fetchAllPages ::
  "env \<Rightarrow> network \<Rightarrow> string \<Rightarrow> jsval \<Rightarrow> nat \<Rightarrow> jsval
     \<Rightarrow> ((error + jsval list) \<times> request list) option" where
  "fetchAllPages e net pth params pageSize opts =
     fetchAllPages_loop e net pth params pageSize opts 1 [] []"

text \<open>What page \<open>page\<close> of the resource contains: the array of the body that the executor
  gets for that page's request, when it gets one.\<close>

definition page_items ::
  "env \<Rightarrow> network \<Rightarrow> string \<Rightarrow> jsval \<Rightarrow> nat \<Rightarrow> jsval \<Rightarrow> nat \<Rightarrow> jsval list option" where
  "page_items e net pth params pageSize opts page =
     (case fst (safeFetch net (page_request e pth params pageSize opts page) 2 500) of
        Inr (Some res) \<Rightarrow> map_option extract_array (body_json res)
      | _ \<Rightarrow> None)"

text \<open>
  \<^verbatim>\<open>async function loadLineItems(orderId, opts = {}) {
    if (!orderId) return [];
    try {
      return await fetchAllPages(`/orders/${orderId}/line_items`, {}, 200, opts);
    } catch (err) {
      console.warn('loadLineItems error', err.message);
      return [];
    }
  }\<close>
  and the same for the shipments.
\<close>

definition loadLineItems :: "env \<Rightarrow> network \<Rightarrow> jsval \<Rightarrow> jsval \<Rightarrow> jsval option" where
  "loadLineItems e net orderId opts =
     (if \<not> truthy orderId then Some (Arr [])
      else (case fetchAllPages e net (''/orders/'' @ ToString orderId @ ''/line_items'') (Obj []) 200 opts of
              None \<Rightarrow> None
            | Some (Inl err, calls) \<Rightarrow> Some (Arr [])
            | Some (Inr items, calls) \<Rightarrow> Some (Arr items)))"

definition loadShipments :: "env \<Rightarrow> network \<Rightarrow> jsval \<Rightarrow> jsval \<Rightarrow> jsval option" where
  "loadShipments e net orderId opts =
     (if \<not> truthy orderId then Some (Arr [])
      else (case fetchAllPages e net (''/orders/'' @ ToString orderId @ ''/shipments'') (Obj []) 200 opts of
              None \<Rightarrow> None
            | Some (Inl err, calls) \<Rightarrow> Some (Arr [])
            | Some (Inr items, calls) \<Rightarrow> Some (Arr items)))"

text \<open>
  \<^verbatim>\<open>async function loadOrder(orderId, opts = {}) {
    if (!orderId) return {};
    try {
      ...
      const qs = new URLSearchParams({ token });
      const url = `${base}/orders/${orderId}?${qs.toString()}`;
      const res = await safeFetch(url, { method: 'GET' });
      if (!res) return {};
      const json = await res.json();
      return json || {};
    } catch (err) {
      console.warn('loadOrder error', err.message);
      return {};
    }
  }\<close>
\<close>

definition order_request :: "env \<Rightarrow> jsval \<Rightarrow> jsval \<Rightarrow> request" where
  "order_request e orderId opts =
     (let token = js_or (member opts ''token'') (TOKEN e);
          subdomain = js_or (member opts ''subdomain'') (SUBDOMAIN e);
          b = (if truthy subdomain then api_base subdomain else api_base (SUBDOMAIN e))
      in \<lparr> base = b, path = ''/orders/'' @ ToString orderId, query = [(''token'', ToString token)] \<rparr>)"

definition loadOrder :: "env \<Rightarrow> network \<Rightarrow> jsval \<Rightarrow> jsval \<Rightarrow> jsval" where
  "loadOrder e net orderId opts =
     (if \<not> truthy orderId then Obj []
      else (case fst (safeFetch net (order_request e orderId opts) 2 500) of
              Inl err \<Rightarrow> Obj []
            | Inr None \<Rightarrow> Obj []
            | Inr (Some res) \<Rightarrow>
                (case body_json res of None \<Rightarrow> Obj [] | Some json \<Rightarrow> js_or json (Obj []))))"

declare fetchAllPages_loop.simps [code]

declare safeFetch_loop.simps [simp del]

subsection \<open>Concrete servers\<close>

definition shop :: env where
  "shop = \<lparr> SUBDOMAIN = Str ''shop'', TOKEN = Str ''secret'' \<rparr>"

definition page_of :: "request \<Rightarrow> string" where
  "page_of r = (case map_of (query r) ''page'' of None \<Rightarrow> [] | Some p \<Rightarrow> p)"

definition json_ok :: "jsval \<Rightarrow> outcome" where
  "json_ok j = Responded \<lparr> status = 200, statusText = ''OK'', body_text = None, body_json = Some j \<rparr>"

definition unavailable :: outcome where
  "unavailable = Responded \<lparr> status = 503, statusText = ''Service Unavailable'',
     body_text = Some ''busy'', body_json = None \<rparr>"

text \<open>A server with five orders, asked for pages of two.\<close>

definition net_2_2_1 :: network where
  "net_2_2_1 r i =
     (if page_of r = ''1'' then json_ok (Arr [Num 1, Num 2])
      else if page_of r = ''2'' then json_ok (Obj [(''orders'', Arr [Num 3, Num 4])])
      else if page_of r = ''3'' then json_ok (Arr [Num 5])
      else json_ok (Arr []))"

text \<open>A server that sends a full first page of 200 items and is down from then on.\<close>

definition net_full_then_down :: network where
  "net_full_then_down r i =
     (if page_of r = ''1'' then json_ok (Arr (replicate 200 (Num 0))) else unavailable)"

text \<open>A server that is down at the first attempt, unreachable at the second and answers
  the third.\<close>

definition net_flaky :: network where
  "net_flaky r i =
     (if i = 0 then unavailable else if i = 1 then Failed ''ECONNRESET''
      else json_ok (Arr [Num 1]))"

definition orders_page_1 :: request where
  "orders_page_1 = page_request shop ''/orders'' (Obj []) 2 (Obj []) 1"

section \<open>Tracking resolution\<close>

text \<open>\<open>typeof v\<close> is a primitive type: the values that a \<open>Set\<close> compares by value.\<close>

fun primitive :: "jsval \<Rightarrow> bool" where
  "primitive (Arr xs) = False"
| "primitive (Obj kvs) = False"
| "primitive _ = True"

text \<open>\<open>found.add(t)\<close> on a \<open>Set\<close> kept as the list of its members in insertion order.
  A primitive is added unless it is a member; an array or an object is compared by
  identity, and two values at different places of a parsed JSON body are never the same
  object.\<close>

definition set_add :: "jsval list \<Rightarrow> jsval \<Rightarrow> jsval list" where
  "set_add found t = (if primitive t \<and> t \<in> set found then found else found @ [t])"

text \<open>\<open>xs.map(f)\<close> on a value: only an array has the method.\<close>

fun map_method :: "jsval \<Rightarrow> (jsval \<Rightarrow> error + 'a) \<Rightarrow> error + 'a list" where
  "map_method (Arr xs) f = mapE f xs"
| "map_method _ f = Inl TypeError"

text \<open>\<open>(s.line_item_ids || []).map(String)\<close> and
  \<open>(s.line_items || []).map((x) => String(x.id || x))\<close>, for a shipment \<open>s\<close> that is
  neither \<open>null\<close> nor \<open>undefined\<close>.\<close>

definition line_item_ids_of :: "jsval \<Rightarrow> error + string list" where
  "line_item_ids_of s =
     map_method (js_or (member s ''line_item_ids'') (Arr [])) (\<lambda>x. Inr (ToString x))"

definition embedded_ids_of :: "jsval \<Rightarrow> error + string list" where
  "embedded_ids_of s =
     map_method (js_or (member s ''line_items'') (Arr []))
       (\<lambda>x. bindE (read_prop x ''id'') (\<lambda>i. Inr (ToString (js_or i x))))"

text \<open>The body of the \<open>forEach\<close> of \<open>trackingForLineItem\<close>.\<close>

definition tracking_step :: "jsval \<Rightarrow> jsval list \<Rightarrow> jsval \<Rightarrow> error + jsval list" where
  "tracking_step lineItemId found s =
     bindE (read_prop s ''tracking_number'') (\<lambda>tn.
       let t = js_or tn (js_or (member s ''tracking'') (Str [])) in
       if \<not> truthy t then Inr found
       else
         bindE (line_item_ids_of s) (\<lambda>ids.
         bindE (embedded_ids_of s) (\<lambda>sLineItems.
           if ToString lineItemId \<in> set ids \<or> ToString lineItemId \<in> set sLineItems
           then Inr (set_add found t) else Inr found)))"

fun foldE :: "('b \<Rightarrow> 'a \<Rightarrow> error + 'b) \<Rightarrow> 'b \<Rightarrow> 'a list \<Rightarrow> error + 'b" where
  "foldE f acc [] = Inr acc"
| "foldE f acc (x # xs) = (case f acc x of Inl e \<Rightarrow> Inl e | Inr acc' \<Rightarrow> foldE f acc' xs)"

text \<open>
  \<^verbatim>\<open>function trackingForLineItem({ order, shipments } = {}, lineItemId) {
    if (!shipments || shipments.length === 0) return '';
    const found = new Set();
    shipments.forEach((s) => { ... });
    if (found.size > 0) return Array.from(found).join('; ');
    // fallback to any shipment tracking at order level
    const any = shipments.map((s) => s.tracking_number || s.tracking || '').filter(Boolean);
    if (any.length > 0) return Array.from(new Set(any)).join('; ');
    return '';
  }\<close>
  The first argument is the object \<open>{ order, shipments }\<close>.
\<close>

definition trackingForLineItem :: "jsval \<Rightarrow> jsval \<Rightarrow> error + string" where
  "trackingForLineItem arg lineItemId =
     (let a = (if arg = Undefined then Obj [] else arg) in
      bindE (read_prop a ''shipments'') (\<lambda>shipments.
        if \<not> truthy shipments \<or> member shipments ''length'' = Num 0 then Inr []
        else (case shipments of
                Arr ss \<Rightarrow>
                  bindE (foldE (tracking_step lineItemId) [] ss) (\<lambda>found.
                    if found \<noteq> [] then Inr (js_join ''; '' found)
                    else
                      (let any = filter truthy
                             (map (\<lambda>s. js_or (member s ''tracking_number'')
                                            (js_or (member s ''tracking'') (Str []))) ss)
                       in if any \<noteq> [] then Inr (js_join ''; '' (foldl set_add [] any))
                          else Inr []))
              | _ \<Rightarrow> Inl TypeError)))"

subsection \<open>The resolution in the words of the specification\<close>

text \<open>A tracking number that is not empty: a value other than \<open>null\<close>, \<open>undefined\<close> and
  the empty string.\<close>

definition non_empty :: "jsval \<Rightarrow> bool" where
  "non_empty v = (v \<noteq> Undefined \<and> v \<noteq> Null \<and> v \<noteq> Str [])"

text \<open>The tracking number of a shipment: its \<open>tracking_number\<close>, or else its
  \<open>tracking\<close>.\<close>

definition tracking_number_of :: "jsval \<Rightarrow> jsval" where
  "tracking_number_of s =
     (if non_empty (member s ''tracking_number'') then member s ''tracking_number''
      else member s ''tracking'')"

text \<open>The id of an embedded line item: the \<open>id\<close> of the object; an entry that is not an
  object is itself the id.\<close>

definition embedded_id :: "jsval \<Rightarrow> jsval" where
  "embedded_id x = (case x of Obj kvs \<Rightarrow> own_lookup kvs ''id'' | _ \<Rightarrow> x)"

text \<open>The shipment references the line item: the id, as a string, is in its id list or is
  the id of one of its embedded line items.\<close>

definition references :: "jsval \<Rightarrow> jsval \<Rightarrow> bool" where
  "references s lineItemId =
     (ToString lineItemId \<in> set (map ToString (elements (member s ''line_item_ids'')))
      \<or> ToString lineItemId
           \<in> set (map (\<lambda>x. ToString (embedded_id x)) (elements (member s ''line_items''))))"

text \<open>Duplicates removed, every element staying where it is first seen.\<close>

fun dedup :: "'a list \<Rightarrow> 'a list" where
  "dedup [] = []"
| "dedup (x # xs) = x # dedup (filter (\<lambda>y. y \<noteq> x) xs)"

text \<open>The tracking numbers found by direct reference, and those of the whole order, as
  they are printed.\<close>

definition direct_tracking :: "jsval list \<Rightarrow> jsval \<Rightarrow> string list" where
  "direct_tracking ss lineItemId =
     dedup (map ToString
       (filter non_empty (map tracking_number_of (filter (\<lambda>s. references s lineItemId) ss))))"

definition order_tracking :: "jsval list \<Rightarrow> string list" where
  "order_tracking ss = dedup (map ToString (filter non_empty (map tracking_number_of ss)))"

text \<open>
  The shipments for which the resolution is stated. A tracking field is missing or a
  string, a number or a boolean, and not one of \<open>0\<close> and \<open>false\<close>, which the code takes
  for a missing value. The id list and the embedded line items of a shipment that has a
  tracking number are arrays, or values that count as missing; an embedded line item is
  not \<open>null\<close> and, when it is an object, has an id that is not one of the values that
  count as missing (\<open>0\<close>, the empty string, \<open>false\<close>, \<open>null\<close>). For the other shipments the
  code throws (a \<open>null\<close> entry, a list that is no array) or compares \<open>[object Object]\<close>
  in place of the id.
\<close>

definition tracking_field_ok :: "jsval \<Rightarrow> bool" where
  "tracking_field_ok v =
     (case v of Undefined \<Rightarrow> True | Null \<Rightarrow> True | Str t \<Rightarrow> True
      | Num n \<Rightarrow> n \<noteq> 0 | Bool b \<Rightarrow> b | _ \<Rightarrow> False)"

definition list_field_ok :: "jsval \<Rightarrow> bool" where
  "list_field_ok v = (if truthy v then is_array v else True)"

definition embedded_ok :: "jsval \<Rightarrow> bool" where
  "embedded_ok x =
     (case x of Undefined \<Rightarrow> False | Null \<Rightarrow> False
      | Obj kvs \<Rightarrow> truthy (own_lookup kvs ''id'') | _ \<Rightarrow> True)"

definition shipment_ok :: "jsval \<Rightarrow> bool" where
  "shipment_ok s =
     (\<not> nullish s
      \<and> tracking_field_ok (member s ''tracking_number'')
      \<and> (if non_empty (member s ''tracking_number'') then True
          else tracking_field_ok (member s ''tracking''))
      \<and> (if non_empty (tracking_number_of s)
          then list_field_ok (member s ''line_item_ids'')
               \<and> list_field_ok (member s ''line_items'')
               \<and> list_all embedded_ok (elements (member s ''line_items''))
          else True))"

text \<open>Tracking numbers that differ are printed differently (as \<open>123\<close> and \<open>"123"\<close> are
  not): the code removes duplicates among the values, the output shows their texts.\<close>

definition renders_apart :: "jsval list \<Rightarrow> bool" where
  "renders_apart vs = list_all (\<lambda>a. list_all (\<lambda>b. ToString a \<noteq> ToString b \<or> a = b) vs) vs"

text \<open>The specification as written: the order-level union is used when no shipment references the
  line item.\<close>

definition claimed_tracking :: "jsval list \<Rightarrow> jsval \<Rightarrow> string" where
  "claimed_tracking ss lineItemId =
     (if list_ex (\<lambda>s. references s lineItemId) ss
      then intercalate ''; '' (direct_tracking ss lineItemId)
      else intercalate ''; '' (order_tracking ss))"

text \<open>What the code does: the order-level union is used when no tracking number was found
  by direct reference.\<close>

definition resolved_tracking :: "jsval list \<Rightarrow> jsval \<Rightarrow> string" where
  "resolved_tracking ss lineItemId =
     (if direct_tracking ss lineItemId \<noteq> []
      then intercalate ''; '' (direct_tracking ss lineItemId)
      else intercalate ''; '' (order_tracking ss))"

definition shipment_untracked :: jsval where
  "shipment_untracked = Obj [(''tracking_number'', Str []), (''line_item_ids'', Arr [Num 1])]"

definition shipment_T2 :: jsval where
  "shipment_T2 = Obj [(''tracking_number'', Str ''T2''), (''line_item_ids'', Arr [Num 2])]"

definition shipment_T1 :: jsval where
  "shipment_T1 = Obj [(''tracking'', Str ''T1''), (''line_items'', Arr [Obj [(''id'', Str ''1'')]])]"

definition shipment_123 :: jsval where
  "shipment_123 = Obj [(''tracking_number'', Num 123), (''line_items'', Arr [Num 1, Str ''9''])]"

text \<open>Two shipments, the first with an embedded line item of id \<open>0\<close>.\<close>

definition shipment_T_item_0 :: jsval where
  "shipment_T_item_0 = Obj [(''tracking_number'', Str ''T''), (''line_items'', Arr [Obj [(''id'', Num 0)]])]"

definition shipment_U_item_5 :: jsval where
  "shipment_U_item_5 = Obj [(''tracking_number'', Str ''U''), (''line_item_ids'', Arr [Num 5])]"

section \<open>Product options and personalization\<close>

text \<open>\<open>JSON.stringify\<close> on the values the formatter hands to it.\<close>

definition hex_digit :: "nat \<Rightarrow> char" where
  "hex_digit d = ''0123456789abcdef'' ! (d mod 16)"

definition json_escape :: "char \<Rightarrow> string" where
  "json_escape c =
     (if c = CHR 0x22 then [CHR 0x5C, CHR 0x22]
      else if c = CHR 0x5C then [CHR 0x5C, CHR 0x5C]
      else if c = CHR 0x08 then [CHR 0x5C, CHR ''b'']
      else if c = CHR 0x0C then [CHR 0x5C, CHR ''f'']
      else if c = CHR 0x0A then [CHR 0x5C, CHR ''n'']
      else if c = CHR 0x0D then [CHR 0x5C, CHR ''r'']
      else if c = CHR 0x09 then [CHR 0x5C, CHR ''t'']
      else if (of_char c :: nat) < 32
        then [CHR 0x5C, CHR ''u'', CHR ''0'', CHR ''0'',
              hex_digit ((of_char c :: nat) div 16), hex_digit (of_char c :: nat)]
      else [c])"

definition json_quote :: "string \<Rightarrow> string" where
  "json_quote s = CHR 0x22 # concat (map json_escape s) @ [CHR 0x22]"

fun json_stringify :: "jsval \<Rightarrow> string" where
  "json_stringify Undefined = []"
| "json_stringify Null = ''null''"
| "json_stringify (Bool b) = (if b then ''true'' else ''false'')"
| "json_stringify (Num n) = show_int n"
| "json_stringify (Str s) = json_quote s"
| "json_stringify (Arr xs) =
     ''['' @ intercalate '','' (map (\<lambda>x. if x = Undefined then ''null'' else json_stringify x) xs) @ '']''"
| "json_stringify (Obj kvs) =
     ''{'' @ intercalate '',''
        (map (\<lambda>kv. json_quote (fst kv) @ '':'' @ json_stringify (snd kv))
           (filter (\<lambda>kv. snd kv \<noteq> Undefined) kvs)) @ ''}''"

text \<open>\<open>xs.filter(Boolean).join(sep)\<close> on a list of strings.\<close>

definition join_truthy :: "string \<Rightarrow> string list \<Rightarrow> string" where
  "join_truthy sep xs = intercalate sep (filter (\<lambda>x. x \<noteq> []) xs)"

text \<open>
  One entry of an option array:
  \<^verbatim>\<open>if (o == null) return '';
  if (typeof o === 'string') return o;
  if (o.option_name || o.sub_option_name) {
    const name = o.option_name || o.name || '';
    const sub = o.sub_option_name || o.value || o.sub || '';
    return [name, sub].filter(Boolean).join(': ');
  }
  try { return JSON.stringify(o); } catch (e) { return String(o); }\<close>
\<close>

definition format_option :: "jsval \<Rightarrow> string" where
  "format_option o' =
     (if nullish o' then []
      else (case o' of
              Str s \<Rightarrow> s
            | _ \<Rightarrow>
                if truthy (js_or (member o' ''option_name'') (member o' ''sub_option_name''))
                then (let name = first_truthy o' [''option_name'', ''name''] (Str []);
                          sub = first_truthy o' [''sub_option_name'', ''value'', ''sub''] (Str [])
                      in js_join '': '' (filter truthy [name, sub]))
                else json_stringify o'))"

text \<open>
  \<^verbatim>\<open>function formatProductOptions(opts) {
    if (!opts) return '';
    if (typeof opts === 'string') return opts;
    if (Array.isArray(opts)) { return opts.map(o => { ... }).filter(Boolean).join('; '); }
    if (typeof opts === 'object') {
      try {
        const parts = Object.entries(opts).map(([k, v]) => `${k}: ${v}`);
        return parts.join('; ');
      } catch (e) { return String(opts); }
    }
    return String(opts);
  }\<close>
\<close>

definition formatProductOptions :: "jsval \<Rightarrow> string" where
  "formatProductOptions opts =
     (if \<not> truthy opts then []
      else (case opts of
              Str s \<Rightarrow> s
            | Arr xs \<Rightarrow> join_truthy ''; '' (map format_option xs)
            | Obj kvs \<Rightarrow> intercalate ''; '' (map (\<lambda>(k, v). k @ '': '' @ ToString v) kvs)
            | _ \<Rightarrow> ToString opts))"

text \<open>
  One attribute of a personalization item:
  \<^verbatim>\<open>if (typeof a === 'string') return a;
  const k = a.key || a.name || '';
  const v = a.value || a.val || '';
  return [k, v].filter(Boolean).join(': ');\<close>
\<close>

definition format_attribute :: "jsval \<Rightarrow> error + string" where
  "format_attribute a =
     (case a of
        Str s \<Rightarrow> Inr s
      | _ \<Rightarrow>
          bindE (read_prop a ''key'') (\<lambda>key.
            let k = js_or key (js_or (member a ''name'') (Str []));
                v = first_truthy a [''value'', ''val''] (Str [])
            in Inr (js_join '': '' (filter truthy [k, v]))))"

text \<open>One item of a personalization array: the body of the \<open>arr.map\<close> of
  \<open>formatProductPersonalization\<close>.\<close>

definition format_personalization_item :: "jsval \<Rightarrow> error + string" where
  "format_personalization_item item =
     (if \<not> truthy item then Inr []
      else
        (let title = first_truthy item [''title'', ''name''] (Str []) in
         bindE (if is_array (member item ''attributes'')
                then bindE (mapE format_attribute (elements (member item ''attributes'')))
                       (\<lambda>as. Inr (join_truthy '', '' as))
                else Inr [])
           (\<lambda>attrs.
              let price =
                    (if truthy (member item ''price_modifier'')
                     then (let pm = member item ''price_modifier'';
                               pt = first_truthy pm [''modifier_type'', ''type''] (Str []);
                               amt = first_truthy pm [''amount'', ''value''] (Str [])
                           in if truthy (js_or pt amt)
                              then ToString (js_or pt (Str [])) @ ToString (js_or amt (Str []))
                              else [])
                     else []);
                  parts = (if truthy title then [title] else [])
                        @ (if attrs \<noteq> [] then [Str (''Attributes: '' @ attrs)] else [])
                        @ (if price \<noteq> [] then [Str (''Price: '' @ price)] else [])
              in Inr (js_join '' | '' parts))))"

text \<open>
  \<^verbatim>\<open>function formatProductPersonalization(pp) {
    if (!pp) return '';
    if (typeof pp === 'string') return pp;
    const arr = Array.isArray(pp) ? pp : (pp.personalizations || pp.product_personalizations || []);
    if (!Array.isArray(arr) || arr.length === 0) return '';
    return arr.map(item => { ... }).filter(Boolean).join(' ; ');
  }\<close>
\<close>

definition formatProductPersonalization :: "jsval \<Rightarrow> error + string" where
  "formatProductPersonalization pp =
     (if \<not> truthy pp then Inr []
      else (case pp of
              Str s \<Rightarrow> Inr s
            | _ \<Rightarrow>
                (let arr = (if is_array pp then pp
                            else first_truthy pp [''personalizations'', ''product_personalizations''] (Arr []))
                 in if \<not> is_array arr \<or> elements arr = [] then Inr []
                    else bindE (mapE format_personalization_item (elements arr))
                           (\<lambda>items. Inr (join_truthy '' ; '' items)))))"

section \<open>Address composition\<close>

text \<open>
  \<^verbatim>\<open>function joinNonEmpty(parts, sep = ' | ') {
    return parts.filter((p) => p !== undefined && p !== null && String(p).trim() !== '').join(sep);
  }\<close>
\<close>

definition joinNonEmpty :: "jsval list \<Rightarrow> string \<Rightarrow> string" where
  "joinNonEmpty parts sep =
     js_join sep (filter (\<lambda>p. p \<noteq> Undefined \<and> p \<noteq> Null \<and> trim (ToString p) \<noteq> []) parts)"

text \<open>The shipment that \<open>extras\<close> offers:
  \<open>extras.shipment || (Array.isArray(extras.shipments) && extras.shipments[0])\<close>, or
  \<open>null\<close>.\<close>

definition extras_shipment :: "jsval \<Rightarrow> jsval" where
  "extras_shipment extras =
     (let offered = js_or (member extras ''shipment'')
                      (if is_array (member extras ''shipments'')
                       then member (member extras ''shipments'') ''0'' else Bool False)
      in if truthy (js_and extras offered) then offered else Null)"

text \<open>
  \<open>composeAddressBlob(addr = {}, order = {}, extras = {})\<close>, lines 116 to 179 of
  \<open>lib/brightSites.js\<close>. An argument that is \<open>undefined\<close> takes its default. The
  function throws when \<open>order\<close> is \<open>null\<close>, and when the first or last name that
  \<open>get\<close> finds is not a string (it has no \<open>trim\<close>).
\<close>

definition composeAddressBlob :: "jsval \<Rightarrow> jsval \<Rightarrow> jsval \<Rightarrow> error + string" where
  "composeAddressBlob addr0 order0 extras0 =
     (let addr = (if addr0 = Undefined then Obj [] else addr0);
          order = (if order0 = Undefined then Obj [] else order0);
          extras = (if extras0 = Undefined then Obj [] else extras0);
          role = (if truthy (js_and extras (member extras ''role'')) then member extras ''role''
                  else Str ''auto'')
      in
      if nullish order then Inl TypeError
      else
        (let contactFallback =
               (if role = Str ''billing''
                then first_truthy order [''billing_contact'', ''shipping_contact''] (Obj [])
                else first_truthy order [''shipping_contact'', ''billing_contact''] (Obj []));
             contact =
               (if truthy (js_and addr
                     (first_truthy addr [''first_name'', ''last_name'', ''email''] (member addr ''phone'')))
                then addr else contactFallback);
             orderAddr =
               (if role = Str ''billing''
                then first_truthy order [''billing_address'', ''shipping_address''] (Obj [])
                else first_truthy order [''shipping_address'', ''billing_address''] (Obj []));
             shipment = extras_shipment extras;
             shipmentAddr =
               (if truthy shipment
                then first_truthy shipment
                       [''shipping_address'', ''address'', ''to_address'', ''recipient''] (Obj [])
                else Obj []);
             first = js_or (get addr [''first_name'', ''first'', ''firstName'', ''firstname''])
                           (get contact [''first_name'', ''first'', ''firstName'', ''firstname'']);
             last = js_or (get addr [''last_name'', ''last'', ''lastName'', ''lastname''])
                          (get contact [''last_name'', ''last'', ''lastName'', ''lastname''])
         in
         bindE (if truthy (js_or first last)
                then bindE (trim_method (js_or first (Str []))) (\<lambda>f.
                     bindE (trim_method (js_or last (Str []))) (\<lambda>l.
                       Inr (trim (f @ '' '' @ l))))
                else Inr [])
           (\<lambda>full.
              let name = joinNonEmpty [Str full] '' | '';
                  oName = get order [''customer_name'', ''customer'', ''customer_full_name'',
                                     ''customerDisplayName''];
                  finalName1 = (if name = [] \<and> truthy oName then trim (ToString oName) else name);
                  sName = get shipmentAddr [''name'', ''recipient_name'', ''to_name'', ''recipient'',
                                            ''full_name''];
                  finalName = (if finalName1 = [] \<and> truthy shipment \<and> truthy sName
                               then trim (ToString sName) else finalName1);
                  company = js_or (get addr [''company'', ''business'', ''org''])
                              (js_or (get orderAddr [''company'']) (get shipmentAddr [''company'']));
                  address1 =
                    js_or (get addr [''address1'', ''first_address'', ''firstAddress'', ''address'', ''street1''])
                      (js_or (get orderAddr [''first_address'', ''firstAddress'', ''address1'', ''street1''])
                         (js_or (get shipmentAddr [''address1'', ''first_address'', ''address'', ''street1''])
                            (Str [])));
                  address2 =
                    js_or (get addr [''address2'', ''second_address'', ''secondAddress'',
                                     ''address_line_2'', ''street2''])
                      (js_or (get orderAddr [''second_address'', ''secondAddress'', ''address2''])
                         (js_or (get shipmentAddr [''address2'', ''second_address'']) (Str [])));
                  addrLine = joinNonEmpty [address1, address2] '' '';
                  city = js_or (get addr [''city'', ''town''])
                           (js_or (get orderAddr [''city''])
                              (js_or (get shipmentAddr [''city'']) (Str [])));
                  state = js_or (get addr [''state'', ''province'', ''region''])
                            (js_or (get orderAddr [''state''])
                               (js_or (get shipmentAddr [''state'']) (Str [])));
                  zip = js_or (get addr [''zip'', ''postcode'', ''postal_code''])
                          (js_or (get addr [''postal''])
                             (js_or (get orderAddr [''zip'', ''postcode'', ''postal_code''])
                                (js_or (get shipmentAddr [''zip'', ''postal_code'']) (Str []))));
                  cityStateZip =
                    joinNonEmpty
                      (filter truthy [city, Str (trim (js_join '' '' (filter truthy [state, zip])))])
                      '', '';
                  country = js_or (get addr [''country'', ''country_name''])
                              (js_or (get orderAddr [''country''])
                                 (js_or (get shipmentAddr [''country'']) (Str [])));
                  email = js_or (get addr [''email'', ''contact_email''])
                            (js_or (get contact [''email''])
                               (js_or (get order [''customer_email''])
                                  (js_or (get order [''customer''])
                                     (js_or (get shipmentAddr [''email'']) (Str [])))));
                  phone = js_or (get addr [''phone'', ''telephone'', ''contact_phone''])
                            (js_or (get contact [''phone''])
                               (js_or (get order [''customer_phone'']) (Str [])));
                  parts = filter truthy
                            [Str finalName, company, Str addrLine, Str cityStateZip, country, email, phone]
              in Inr (js_join '' | '' parts))))"

section \<open>Enrichment\<close>

text \<open>The error marker that \<open>promisePool\<close> stores for a worker that threw:
  \<open>{ error: String(err) }\<close>, for the text \<open>String(err)\<close> of what was thrown.\<close>

definition error_marker :: "string \<Rightarrow> jsval" where
  "error_marker txt = Obj [(''error'', Str txt)]"

text \<open>
  \<^verbatim>\<open>async function promisePool(items, worker, concurrency = 5) {
    const results = [];
    let i = 0;
    const runners = new Array(concurrency).fill(null).map(async () => {
      while (i < items.length) {
        const idx = i++;
        try {
          results[idx] = await worker(items[idx], idx);
        } catch (err) {
          results[idx] = { error: String(err) };
        }
      }
    });
    await Promise.all(runners);
    return results;
  }\<close>
  A worker call returns a value (\<open>Inr\<close>), throws (\<open>Inl\<close>, with the text \<open>String(err)\<close>
  of what it threw), or never settles (\<open>None\<close>). Every index below
  \<open>items.length\<close> is taken by exactly one runner, which stores at that index what the
  worker call for it gave; the outcome of a worker call is a function of the item and the
  index, so the array does not depend on how the runners interleave, and the pool returns
  it once every call has settled. Without a runner nothing is stored.
\<close>

definition pool_slot :: "(jsval \<Rightarrow> nat \<Rightarrow> (string + jsval) option) \<Rightarrow> jsval \<Rightarrow> nat \<Rightarrow> jsval option" where
  "pool_slot worker item idx =
     (case worker item idx of
        None \<Rightarrow> None
      | Some (Inl txt) \<Rightarrow> Some (error_marker txt)
      | Some (Inr r) \<Rightarrow> Some r)"

fun collect :: "'a option list \<Rightarrow> 'a list option" where
  "collect [] = Some []"
| "collect (x # xs) =
     (case x of None \<Rightarrow> None
      | Some y \<Rightarrow> (case collect xs of None \<Rightarrow> None | Some ys \<Rightarrow> Some (y # ys)))"

definition promisePool ::
  "jsval list \<Rightarrow> (jsval \<Rightarrow> nat \<Rightarrow> (string + jsval) option) \<Rightarrow> nat \<Rightarrow> jsval list option" where
  "promisePool items worker concurrency =
     (if concurrency = 0 then Some []
      else collect (map (\<lambda>idx. pool_slot worker (items ! idx) idx) [0..<length items]))"

text \<open>\<open>Object.assign({}, order, fullOrder || {})\<close>.\<close>

definition merge_order :: "jsval \<Rightarrow> jsval \<Rightarrow> jsval" where
  "merge_order order fullOrder = Obj (object_assign [] [order, js_or fullOrder (Obj [])])"

text \<open>
  The worker of the \<open>/api/run\<close> handler:
  \<^verbatim>\<open>async (order) => {
    const orderIdentifier = order.id || order.order_id || order.orderNumber || order.number;
    const [fullOrder, line_items, shipments] = await Promise.all([
      require('./lib/brightSites').loadOrder(orderIdentifier, storeOpts),
      loadLineItems(orderIdentifier, storeOpts),
      loadShipments(orderIdentifier, storeOpts),
    ]);
    const mergedOrder = Object.assign({}, order, fullOrder || {});
    return { order: mergedOrder, line_items, shipments };
  }\<close>
  The loaders do not throw. The read \<open>order.id\<close> throws a \<open>TypeError\<close> for an order
  that is \<open>null\<close> or \<open>undefined\<close>; \<open>String(err)\<close> of it is the name of the error, a
  colon and the message, which in V8, the engine of Node.js, reads
  \<open>Cannot read properties of null (reading 'id')\<close>.
\<close>

definition cannot_read :: "jsval \<Rightarrow> string \<Rightarrow> string" where
  "cannot_read v k =
     ''Cannot read properties of '' @ ToString v @ '' (reading '' @ [CHR 0x27] @ k @ [CHR 0x27] @ '')''"

definition order_identifier :: "jsval \<Rightarrow> jsval" where
  "order_identifier order = first_truthy order [''id'', ''order_id'', ''orderNumber''] (member order ''number'')"

definition enrich_worker :: "env \<Rightarrow> network \<Rightarrow> jsval \<Rightarrow> jsval \<Rightarrow> nat \<Rightarrow> (string + jsval) option" where
  "enrich_worker e net storeOpts order idx =
     (if nullish order then Some (Inl (''TypeError: '' @ cannot_read order ''id''))
      else
        (let orderIdentifier = order_identifier order;
             fullOrder = loadOrder e net orderIdentifier storeOpts
         in case loadLineItems e net orderIdentifier storeOpts of
              None \<Rightarrow> None
            | Some line_items \<Rightarrow>
                (case loadShipments e net orderIdentifier storeOpts of
                   None \<Rightarrow> None
                 | Some shipments \<Rightarrow>
                     Some (Inr (Obj [(''order'', merge_order order fullOrder),
                                     (''line_items'', line_items),
                                     (''shipments'', shipments)])))))"

section \<open>Row assembly\<close>




text \<open>What \<open>for (const s of v)\<close> iterates over: the elements of an array, the characters
  of a string; any other value is not iterable.\<close>

fun iterate :: "jsval \<Rightarrow> error + jsval list" where
  "iterate (Arr xs) = Inr xs"
| "iterate (Str s) = Inr (map Str (chars_of s))"
| "iterate _ = Inl TypeError"

text \<open>
  \<^verbatim>\<open>for (const s of shipments) {
    const ids = (s.line_item_ids || []).map(String);
    const sLineItems = (s.line_items || []).map((x) => String(x.id || x));
    if (ids.includes(String(li.id)) || sLineItems.includes(String(li.id))) {
      representative = s;
      break;
    }
  }\<close>
  with \<open>representative\<close> initially \<open>null\<close>.
\<close>

fun find_representative :: "jsval list \<Rightarrow> jsval \<Rightarrow> error + jsval" where
  "find_representative [] lineItemId = Inr Null"
| "find_representative (s # ss) lineItemId =
     bindE (read_prop s ''line_item_ids'') (\<lambda>_.
     bindE (line_item_ids_of s) (\<lambda>ids.
     bindE (embedded_ids_of s) (\<lambda>sLineItems.
       if ToString lineItemId \<in> set ids \<or> ToString lineItemId \<in> set sLineItems then Inr s
       else find_representative ss lineItemId)))"

text \<open>\<open>Object.assign({}, order.X || {}, order.X_address || {}, order.X_contact || {})\<close>.\<close>

definition merged_party :: "jsval \<Rightarrow> string \<Rightarrow> jsval" where
  "merged_party order party =
     Obj (object_assign []
       [js_or (member order party) (Obj []),
        js_or (member order (party @ ''_address'')) (Obj []),
        js_or (member order (party @ ''_contact'')) (Obj [])])"

text \<open>The ten structured columns of one party in detailed mode, lines 312 to 337 of the
  handler.\<close>

definition structured_fields :: "jsval \<Rightarrow> jsval \<Rightarrow> jsval list" where
  "structured_fields merged order =
     (let first = pick merged [''first_name'', ''first'', ''firstName'', ''firstname''];
          last = pick merged [''last_name'', ''last'', ''lastName'', ''lastname''];
          name = (if truthy (js_or first last)
                  then Str (trim (ToString (js_or first (Str [])) @ '' ''
                                  @ ToString (js_or last (Str []))))
                  else js_or (pick order [''customer_name'', ''customer'', ''username'']) (Str []))
      in [name,
          pick merged [''company'', ''business'', ''org''],
          pick merged [''first_address'', ''address1'', ''firstAddress'', ''address'', ''street1''],
          pick merged [''second_address'', ''address2'', ''secondAddress'', ''address_line_2'', ''street2''],
          pick merged [''city'', ''town''],
          pick merged [''state'', ''province'', ''region''],
          pick merged [''zip'', ''postcode'', ''postal_code''],
          pick merged [''country'', ''country_name''],
          js_or (pick merged [''email'', ''contact_email''])
                (pick order [''customer_email'', ''customer'']),
          js_or (pick merged [''phone'', ''telephone'', ''contact_phone''])
                (pick order [''customer_phone''])])"

text \<open>
  The array that \<open>rows.push([...])\<close> appends for one line item, lines 339 to 358 of the
  handler, with the order-level and shipment-level fields that it is built from (lines 261
  to 269).
\<close>

definition detailed_cells ::
  "jsval \<Rightarrow> jsval \<Rightarrow> jsval \<Rightarrow> string \<Rightarrow> jsval \<Rightarrow> string \<Rightarrow> string \<Rightarrow> string \<Rightarrow> jsval list" where
  "detailed_cells order li li_id tracking representative productPersonalization billingInfo shippingInfo =
     (let shippingLanded =
            js_or (js_and representative
                     (js_or (member representative ''landed_cost'')
                            (member representative ''shipping_cost'')))
              (js_or (member order ''shipping_total'') (Str []));
          shipMethod =
            js_or (js_and representative
                     (js_or (member representative ''shipping_method'')
                            (member order ''shipping_method'')))
              (Str []);
          shipDate =
            js_or (js_and representative
                     (js_or (member representative ''ship_date'')
                            (member representative ''shipped_at'')))
              (Str []);
          placed = first_truthy order [''placed_at'', ''created_at''] (Str []);
          quantity = js_or (member li ''quantity'') (Str []);
          productName = first_truthy li [''name'', ''product_name''] (Str []);
          productOptions =
            formatProductOptions
              (first_truthy li [''options_text'', ''product_options''] (member li ''options''))
      in [Str (ToString (first_truthy order [''order_id'', ''id''] (Str []))),
          placed,
          js_or (member order ''status'') (Str []),
          Str (ToString (js_or li_id (Str []))),
          Str tracking,
          shippingLanded,
          shipMethod,
          shipDate,
          Str productPersonalization,
          Str (ToString quantity),
          productName,
          Str productOptions,
          Str billingInfo,
          Str shippingInfo]
         @ structured_fields (merged_party order ''billing'') order
         @ structured_fields (merged_party order ''shipping'') order)"

text \<open>
  The row of one line item: the body of \<open>line_items.forEach((li) => { ... })\<close>, lines 244
  to 359 of the handler, without the debug snapshot. Every exception of the body is a
  \<open>TypeError\<close>; the unconditional read \<open>order.placed_at\<close> throws it for an order that
  is \<open>null\<close> or \<open>undefined\<close>, whatever the conditional reads of \<open>order\<close> before it did.
\<close>

definition detailed_row :: "jsval \<Rightarrow> jsval \<Rightarrow> jsval \<Rightarrow> error + jsval list" where
  "detailed_row order shipments li =
     bindE (read_prop li ''id'') (\<lambda>li_id.
     bindE (trackingForLineItem (Obj [(''order'', order), (''shipments'', shipments)]) li_id) (\<lambda>tracking.
     bindE (iterate shipments) (\<lambda>ss.
     bindE (find_representative ss li_id) (\<lambda>found.
       let representative =
             (if \<not> truthy found \<and> truthy (member shipments ''length'')
              then member shipments ''0'' else found)
       in
       if nullish order then Inl TypeError
       else
         bindE (formatProductPersonalization
                  (first_truthy li [''product_personalizations'', ''personalizations'',
                                    ''personalization''] (member li ''product_personalization'')))
           (\<lambda>productPersonalization.
         bindE (composeAddressBlob (merged_party order ''billing'') order
                  (Obj [(''order'', order), (''role'', Str ''billing'')]))
           (\<lambda>billingInfo.
         bindE (composeAddressBlob (merged_party order ''shipping'') order
                  (Obj [(''shipment'', representative), (''shipments'', shipments),
                        (''role'', Str ''shipping'')]))
           (\<lambda>shippingInfo.
              Inr (detailed_cells order li li_id tracking representative productPersonalization
                     billingInfo shippingInfo))))))))"

text \<open>
  The rows of one enrichment slot:
  \<^verbatim>\<open>enriched.forEach(({ order, line_items = [], shipments = [] }) => {
    line_items.forEach((li) => { ... rows.push([...]); });
  });\<close>
\<close>

definition slot_rows :: "jsval \<Rightarrow> error + jsval list list" where
  "slot_rows slot =
     bindE (read_prop slot ''order'') (\<lambda>order.
       let line_items = (if member slot ''line_items'' = Undefined then Arr []
                         else member slot ''line_items'');
           shipments = (if member slot ''shipments'' = Undefined then Arr []
                        else member slot ''shipments'')
       in map_method line_items (detailed_row order shipments))"

definition detailed_rows :: "jsval list \<Rightarrow> error + jsval list list" where
  "detailed_rows enriched = bindE (mapE slot_rows enriched) (\<lambda>rs. Inr (concat rs))"

text \<open>The array that the summary mode returns for one order, lines 367 to 388 of the
  handler.\<close>

definition summary_cells :: "jsval \<Rightarrow> string \<Rightarrow> string \<Rightarrow> jsval list" where
  "summary_cells order billingInfo shippingInfo =
     (let billingMerged = merged_party order ''billing'';
          shippingMerged = merged_party order ''shipping'';
          billingName = js_or (pick billingMerged [''first_name'', ''first''])
                          (js_or (pick order [''customer'', ''username'']) (Str []));
          shippingName = js_or (pick shippingMerged [''first_name'', ''first''])
                           (js_or (pick order [''customer'', ''username'']) (Str []));
          structured =
            [billingName, Str [], Str [], Str [], Str [], Str [], Str [], Str [],
             js_or (pick billingMerged [''email'', ''contact_email''])
                   (pick order [''customer_email'', ''customer'']),
             Str [],
             shippingName, Str [], Str [], Str [], Str [], Str [], Str [], Str [],
             js_or (pick shippingMerged [''email'', ''contact_email''])
                   (pick order [''customer_email'', ''customer'']),
             Str []]
      in [Str (ToString (first_truthy order [''order_id'', ''id''] (Str []))),
          first_truthy order [''placed_at'', ''created_at''] (Str []),
          js_or (member order ''status'') (Str []),
          Str [],
          Str [],
          js_or (member order ''shipping_total'') (Str []),
          js_or (member order ''shipping_method'') (Str []),
          Str [],
          Str [],
          Str [],
          Str [],
          Str [],
          Str billingInfo,
          Str shippingInfo] @ structured)"

text \<open>The row of one order in summary mode, lines 363 to 389 of the handler.\<close>

definition summary_row :: "jsval \<Rightarrow> error + jsval list" where
  "summary_row order =
     bindE (read_prop order ''billing'') (\<lambda>billing.
     bindE (composeAddressBlob (js_or billing (js_or (member order ''billing_address'') (Obj [])))
              order Undefined) (\<lambda>billingInfo.
     bindE (composeAddressBlob (first_truthy order [''shipping'', ''shipping_address''] (Obj []))
              order Undefined) (\<lambda>shippingInfo.
       Inr (summary_cells order billingInfo shippingInfo))))"

definition summary_rows :: "jsval list \<Rightarrow> error + jsval list list" where
  "summary_rows orders = mapE summary_row orders"

text \<open>
  The handler from the fetched orders on: the rows and the two counts of \<open>meta\<close>. An
  exception is caught by the handler and answered with status 500; \<open>None\<close> when a
  pagination never ends.
\<close>

record report =
  rows :: "jsval list list"
  meta_orders :: nat
  meta_rows :: nat

definition run_report ::
  "env \<Rightarrow> network \<Rightarrow> jsval \<Rightarrow> string \<Rightarrow> jsval list \<Rightarrow> (error + report) option" where
  "run_report e net storeOpts reportType orders =
     (if reportType = ''Needed Excel''
      then (case promisePool orders (enrich_worker e net storeOpts) 5 of
              None \<Rightarrow> None
            | Some enriched \<Rightarrow>
                Some (bindE (detailed_rows enriched) (\<lambda>rs.
                  Inr \<lparr> rows = rs, meta_orders = length orders, meta_rows = length rs \<rparr>)))
      else Some (bindE (summary_rows orders) (\<lambda>rs.
             Inr \<lparr> rows = rs, meta_orders = length orders, meta_rows = length rs \<rparr>)))"


subsection \<open>A concrete store\<close>

definition order_7 :: jsval where
  "order_7 = Obj [(''id'', Num 7), (''created_at'', Str ''2024-01-01''), (''status'', Str ''open'')]"

definition order_7_detail :: jsval where
  "order_7_detail = Obj [(''id'', Num 7), (''status'', Str ''shipped''),
     (''billing_contact'', Obj [(''first_name'', Str ''Jo''), (''last_name'', Str ''Doe'')]),
     (''shipping_address'', Obj [(''city'', Str ''  ''), (''town'', Str ''Bath'')])]"

definition line_item_1 :: jsval where
  "line_item_1 = Obj [(''id'', Num 1), (''name'', Str ''Mug''), (''quantity'', Num 2),
     (''options'', Arr [Obj [(''option_name'', Str ''Size''), (''sub_option_name'', Str ''L'')]])]"

text \<open>A server with one order that has one line item and one shipment; any other order
  has neither.\<close>

definition net_store :: network where
  "net_store r i =
     (if path r = ''/orders/7'' then json_ok order_7_detail
      else if path r = ''/orders/7/line_items'' then json_ok (Arr [line_item_1])
      else if path r = ''/orders/7/shipments'' then json_ok (Arr [shipment_T1])
      else json_ok (Arr []))"

definition row_7_1 :: "jsval list" where
  "row_7_1 =
     [Str ''7'', Str ''2024-01-01'', Str ''shipped'', Str ''1'', Str ''T1'', Str [], Str [], Str [],
      Str [], Str ''2'', Str ''Mug'', Str ''Size: L'', Str ''Jo Doe'', Str ''Jo Doe | Bath'',
      Str ''Jo Doe'', Str [], Str [], Str [], Str [], Str [], Str [], Str [], Str [], Str [],
      Str [], Str [], Str [], Str [], Str ''Bath'', Str [], Str [], Str [], Str [], Str []]"


text \<open>
  The handler from line 165 on:
  \<^verbatim>\<open>const orders = await fetchAllPages('/orders', params, 200, storeOpts);\<close>
  and then the rows and counts as above. The debug snapshot of the first order (lines 167
  to 220) does not enter the rows or the counts and does not throw. The handler has no
  \<open>try\<close> around this call other than its outermost one (line 395), which answers an
  exception with status 500: \<open>Inl\<close>.
\<close>

definition api_run ::
  "env \<Rightarrow> network \<Rightarrow> jsval \<Rightarrow> string \<Rightarrow> jsval \<Rightarrow> (error + report) option" where
  "api_run e net storeOpts reportType params =
     (case fetchAllPages e net ''/orders'' params 200 storeOpts of
        None \<Rightarrow> None
      | Some (Inl err, calls) \<Rightarrow> Some (Inl err)
      | Some (Inr orders, calls) \<Rightarrow> run_report e net storeOpts reportType orders)"

section \<open>The runners of the promise pool\<close>

text \<open>
  \<open>promisePool\<close> starts \<open>concurrency\<close> runners that share the counter \<open>i\<close> and the
  array \<open>results\<close>. A runner that is not waiting tests \<open>i < items.length\<close>: it takes the
  index \<open>i\<close>, increments \<open>i\<close>, calls the worker and waits for it, or it leaves the loop.
  When the worker call of a waiting runner settles, the runner stores the value, or the
  error marker, at its index. Between two \<open>await\<close>s a runner is not interrupted, so these
  are the steps that can interleave; the runners may take them in any order.
\<close>

datatype runner = Ready | Awaiting nat | Finished

record pool_state =
  counter :: nat
  slots :: "nat \<Rightarrow> jsval option"
  runners :: "nat \<Rightarrow> runner"

inductive pool_step ::
  "jsval list \<Rightarrow> (jsval \<Rightarrow> nat \<Rightarrow> (string + jsval) option) \<Rightarrow> nat \<Rightarrow> pool_state \<Rightarrow> pool_state \<Rightarrow> bool"
  for items worker concurrency where
  take: "j < concurrency \<Longrightarrow> runners s j = Ready \<Longrightarrow> counter s < length items \<Longrightarrow>
     pool_step items worker concurrency s
       (s\<lparr> counter := Suc (counter s), runners := (runners s)(j := Awaiting (counter s)) \<rparr>)"
| settle: "j < concurrency \<Longrightarrow> runners s j = Awaiting idx \<Longrightarrow>
     pool_slot worker (items ! idx) idx = Some v \<Longrightarrow>
     pool_step items worker concurrency s
       (s\<lparr> slots := (slots s)(idx \<mapsto> v), runners := (runners s)(j := Ready) \<rparr>)"
| leave: "j < concurrency \<Longrightarrow> runners s j = Ready \<Longrightarrow> \<not> counter s < length items \<Longrightarrow>
     pool_step items worker concurrency s (s\<lparr> runners := (runners s)(j := Finished) \<rparr>)"

definition pool_init :: pool_state where
  "pool_init = \<lparr> counter = 0, slots = (\<lambda>idx. None), runners = (\<lambda>j. Ready) \<rparr>"

text \<open>\<open>Promise.all(runners)\<close> resolves: every runner has left its loop.\<close>

definition pool_done :: "nat \<Rightarrow> pool_state \<Rightarrow> bool" where
  "pool_done concurrency s = (\<forall>j<concurrency. runners s j = Finished)"

text \<open>The array \<open>results\<close>: its length is the number of indices taken, an index that was
  never assigned reads as \<open>undefined\<close>.\<close>

definition pool_array :: "pool_state \<Rightarrow> jsval list" where
  "pool_array s =
     map (\<lambda>idx. case slots s idx of None \<Rightarrow> Undefined | Some v \<Rightarrow> v) [0..<counter s]"

text \<open>What holds of the pool at every moment: an index is stored only after it was taken,
  and with the outcome of its worker call; an index that was taken is stored or awaited by
  a runner; a runner leaves only when all indices are taken.\<close>

definition pool_inv ::
  "jsval list \<Rightarrow> (jsval \<Rightarrow> nat \<Rightarrow> (string + jsval) option) \<Rightarrow> nat \<Rightarrow> pool_state \<Rightarrow> bool" where
  "pool_inv items worker concurrency s =
     (counter s \<le> length items
      \<and> (\<forall>idx v. slots s idx = Some v \<longrightarrow>
            idx < counter s \<and> pool_slot worker (items ! idx) idx = Some v)
      \<and> (\<forall>idx j. runners s j = Awaiting idx \<longrightarrow> idx < counter s)
      \<and> (\<forall>idx<counter s. slots s idx \<noteq> None \<or> (\<exists>j<concurrency. runners s j = Awaiting idx))
      \<and> ((\<exists>j<concurrency. runners s j = Finished) \<longrightarrow> counter s = length items))"

text \<open>Three orders: one that is \<open>null\<close>, one without line items and one with a line
  item and a shipment, and their enrichment slots.\<close>

definition orders_3 :: "jsval list" where
  "orders_3 = [Null, Obj [(''id'', Num 8)], order_7]"

definition slots_3 :: "jsval list" where
  "slots_3 =
     [Obj [(''error'', Str (''TypeError: Cannot read properties of null (reading ''
                              @ [CHR 0x27] @ ''id'' @ [CHR 0x27] @ '')''))],
      Obj [(''order'', Obj [(''id'', Num 8)]), (''line_items'', Arr []), (''shipments'', Arr [])],
      Obj [(''order'', merge_order order_7 order_7_detail),
           (''line_items'', Arr [line_item_1]), (''shipments'', Arr [shipment_T1])]]"

text \<open>The work that is left: two units for an index not yet taken (its take and its
  settling), one for a call that is awaited, and one for each runner still in its loop.\<close>

fun runner_weight :: "runner \<Rightarrow> nat" where
  "runner_weight Ready = 1"
| "runner_weight (Awaiting idx) = 2"
| "runner_weight Finished = 0"

definition pool_measure :: "jsval list \<Rightarrow> nat \<Rightarrow> pool_state \<Rightarrow> nat" where
  "pool_measure items concurrency s =
     2 * (length items - counter s) + (\<Sum>j<concurrency. runner_weight (runners s j))"

section \<open>Properties\<close>

subsection \<open>Alias resolution skips blank values\<close>

lemma chars_of_Nil [simp]: "chars_of [] = []"
  by (simp add: chars_of.simps)

lemma char_len_pos: "s \<noteq> [] \<Longrightarrow> 0 < char_len s"
  by (cases s) (simp_all add: Let_def)

lemma chars_of_nonempty: "[] \<notin> set (chars_of s)"
proof (induction s rule: chars_of.induct)
  case (1 s)
  show ?case
  proof (cases "s = []")
    case True
    then show ?thesis by simp
  next
    case False
    with char_len_pos [OF False] have "take (char_len s) s \<noteq> []" by simp
    with False 1 show ?thesis by (subst chars_of.simps) auto
  qed
qed

lemma dropWhile_rev_Nil:
  "dropWhile P (rev (dropWhile P xs)) = [] \<longleftrightarrow> list_all P xs"
proof (induction xs)
  case Nil
  show ?case by simp
next
  case (Cons x xs)
  show ?case
  proof (cases "P x")
    case True
    with Cons show ?thesis by simp
  next
    case False
    then have "x \<in> set (rev (x # xs))" by simp
    with False have "dropWhile P (rev (x # xs)) \<noteq> []"
      by (metis dropWhile_eq_Nil_conv)
    with False show ?thesis by simp
  qed
qed

lemma concat_Nil_iff: "[] \<notin> set xs \<Longrightarrow> concat xs = [] \<longleftrightarrow> xs = []"
  by (cases xs) auto

lemma trim_Nil_iff: "trim s = [] \<longleftrightarrow> list_all js_whitespace (chars_of s)"
proof -
  let ?ys = "rev (dropWhile js_whitespace (rev (dropWhile js_whitespace (chars_of s))))"
  have "set ?ys \<subseteq> set (chars_of s)"
  proof
    fix x assume "x \<in> set ?ys"
    then have "x \<in> set (dropWhile js_whitespace (rev (dropWhile js_whitespace (chars_of s))))"
      by simp
    then have "x \<in> set (rev (dropWhile js_whitespace (chars_of s)))" by (rule set_dropWhileD)
    then have "x \<in> set (dropWhile js_whitespace (chars_of s))" by simp
    then show "x \<in> set (chars_of s)" by (rule set_dropWhileD)
  qed
  with chars_of_nonempty have "[] \<notin> set ?ys" by blast
  then have e: "(concat ?ys = []) = (?ys = [])" by (rule concat_Nil_iff)
  have r: "(?ys = []) = list_all js_whitespace (chars_of s)"
    unfolding rev_is_Nil_conv by (rule dropWhile_rev_Nil)
  show ?thesis unfolding trim_def e r by (rule refl)
qed

lemma chars_of_ascii:
  "list_all (\<lambda>c. (of_char c :: nat) < 194) s \<Longrightarrow> chars_of s = map (\<lambda>c. [c]) s"
proof (induction s)
  case Nil
  show ?case by simp
next
  case (Cons c cs)
  then have "char_len (c # cs) = 1" by (simp add: Let_def)
  with Cons show ?case by (subst chars_of.simps) simp
qed

lemma set_digits: "set (digits n) \<subseteq> set ''0123456789''"
proof (induction n rule: digits.induct)
  case (1 n)
  have d: "digit_char n \<in> set ''0123456789''"
    unfolding digit_char_def by (rule nth_mem) simp
  show ?case
  proof (cases "n < 10")
    case True
    with d show ?thesis by (subst digits.simps) simp
  next
    case False
    with d 1 show ?thesis by (subst digits.simps) simp
  qed
qed

lemma digits_not_Nil: "digits n \<noteq> []"
  by (subst digits.simps) simp

lemma sign_or_digit:
  assumes "c \<in> set ''-0123456789''"
  shows "(of_char c :: nat) < 194" and "\<not> js_whitespace [c]"
proof -
  from assms consider "c = CHR ''-''" | "c = CHR ''0''" | "c = CHR ''1''" | "c = CHR ''2''"
    | "c = CHR ''3''" | "c = CHR ''4''" | "c = CHR ''5''" | "c = CHR ''6''" | "c = CHR ''7''"
    | "c = CHR ''8''" | "c = CHR ''9''" by auto
  then show "(of_char c :: nat) < 194" by cases simp_all
  from assms consider "c = CHR ''-''" | "c = CHR ''0''" | "c = CHR ''1''" | "c = CHR ''2''"
    | "c = CHR ''3''" | "c = CHR ''4''" | "c = CHR ''5''" | "c = CHR ''6''" | "c = CHR ''7''"
    | "c = CHR ''8''" | "c = CHR ''9''" by auto
  then show "\<not> js_whitespace [c]" by cases (simp_all add: js_whitespace_def)
qed

lemma set_show_int: "set (show_int n) \<subseteq> set ''-0123456789''"
proof -
  have d: "set (digits m) \<subseteq> set ''-0123456789''" for m
    by (rule subset_trans [OF set_digits set_subset_Cons])
  have m: "CHR ''-'' \<in> set ''-0123456789''" by (rule list.set_intros(1))
  show ?thesis
  proof (cases "n < 0")
    case True
    then have "show_int n = CHR ''-'' # digits (nat (- n))"
      unfolding show_int_def by (rule if_P)
    moreover have "set (CHR ''-'' # digits (nat (- n))) \<subseteq> set ''-0123456789''"
      unfolding list.set(2) [of "CHR ''-''" "digits (nat (- n))"]
      by (rule insert_subsetI [OF m d])
    ultimately show ?thesis by (simp only:)
  next
    case False
    then have "show_int n = digits (nat n)"
      unfolding show_int_def by (rule if_not_P)
    then show ?thesis using d [of "nat n"] by (simp only:)
  qed
qed

lemma show_int_filled: "list_ex (\<lambda>c. \<not> js_whitespace c) (chars_of (show_int n))"
proof -
  have a: "list_all (\<lambda>c. (of_char c :: nat) < 194) (show_int n)"
    unfolding list_all_iff using set_show_int sign_or_digit(1) by blast
  have ne: "show_int n \<noteq> []" by (simp add: show_int_def digits_not_Nil del: digits.simps)
  then obtain c cs where c: "show_int n = c # cs" by (cases "show_int n") auto
  with set_show_int [of n] have "c \<in> set ''-0123456789''" by (simp del: digits.simps)
  then have "\<not> js_whitespace [c]" by (rule sign_or_digit(2))
  moreover from a c have "list_all (\<lambda>c. (of_char c :: nat) < 194) (c # cs)" by simp
  ultimately show ?thesis unfolding c by (simp add: chars_of_ascii)
qed

lemma filled_iff:
  "(v \<noteq> Undefined \<and> v \<noteq> Null \<and> trim (ToString v) \<noteq> []) = filled v"
proof (cases v)
  case (Bool b)
  have "trim ''true'' \<noteq> []" "trim ''false'' \<noteq> []" by code_simp+
  with Bool show ?thesis by (simp add: filled_def)
next
  case (Num n)
  then show ?thesis
    using show_int_filled [of n] by (simp add: filled_def trim_Nil_iff list_ex_iff list_all_iff)
next
  case (Obj kvs)
  have "trim ''[object Object]'' \<noteq> []" by code_simp
  with Obj show ?thesis by (simp add: filled_def)
qed (simp_all add: filled_def trim_Nil_iff list_ex_iff list_all_iff)

lemma blank_not_filled: "blank v \<Longrightarrow> \<not> filled v"
  by (cases v) (simp_all add: blank_def filled_def list_ex_iff list_all_iff)

lemma get_step:
  "get obj (k # ks) = (if truthy obj \<and> filled (member obj k) then member obj k else get obj ks)"
  using filled_iff [of "member obj k"] by auto

lemma pick_step:
  "pick obj (k # ks) = (if truthy obj \<and> filled (member obj k) then member obj k else pick obj ks)"
  using filled_iff [of "member obj k"] by (auto simp: Let_def)

lemma get_all_blank: "(\<forall>k\<in>set ks. blank (member obj k)) \<Longrightarrow> get obj ks = Str []"
  by (induction ks) (simp_all add: get_step blank_not_filled del: get.simps(2))

lemma pick_all_blank: "(\<forall>k\<in>set ks. blank (member obj k)) \<Longrightarrow> pick obj ks = Str []"
  by (induction ks) (simp_all add: pick_step blank_not_filled del: pick.simps(2))

text \<open>
  C9. The alias-resolution primitive (\<open>get\<close> in \<open>composeAddressBlob\<close>, \<open>pick\<close> in the
  request handler) treats a key whose value is \<open>null\<close>, \<open>undefined\<close> or a string that is
  empty or only white space (the no-break space and the other characters that \<open>trim\<close>
  strips among it) as absent: it moves on to the next alias, and when every alias is blank
  it yields the empty string, so that \<open>||\<close> moves on to the fallback source. The first
  alias whose value is not blank wins, whatever the later aliases hold. Resolving
  \<open>(city, town)\<close> over \<open>{city: "  ", town: "B"}\<close> yields \<open>"B"\<close>, over
  \<open>{city: "A", town: "B"}\<close> it yields \<open>"A"\<close>, and over a city that is a space and a no-break
  space it yields \<open>"B"\<close>.
\<close>

theorem alias_resolution_skips_blank:
  "(blank (member obj k) \<longrightarrow> get obj (k # ks) = get obj ks \<and> pick obj (k # ks) = pick obj ks)
   \<and> (truthy obj \<and> filled (member obj k) \<longrightarrow>
        get obj (k # ks) = member obj k \<and> pick obj (k # ks) = member obj k)
   \<and> ((\<forall>k\<in>set ks. blank (member obj k)) \<longrightarrow> js_or (get obj ks) d = d \<and> js_or (pick obj ks) d = d)
   \<and> get (Obj [(''city'', Str ''  ''), (''town'', Str ''B'')]) [''city'', ''town''] = Str ''B''
   \<and> pick (Obj [(''city'', Str ''  ''), (''town'', Str ''B'')]) [''city'', ''town''] = Str ''B''
   \<and> get (Obj [(''city'', Str ''A''), (''town'', Str ''B'')]) [''city'', ''town''] = Str ''A''
   \<and> pick (Obj [(''city'', Str ''A''), (''town'', Str ''B'')]) [''city'', ''town''] = Str ''A''
   \<and> get (Obj [(''city'', Str [CHR 0x20, CHR 0xC2, CHR 0xA0]), (''town'', Str ''B'')])
        [''city'', ''town''] = Str ''B''
   \<and> pick (Obj [(''city'', Str [CHR 0x20, CHR 0xC2, CHR 0xA0]), (''town'', Str ''B'')])
        [''city'', ''town''] = Str ''B''"
proof (intro conjI impI)
  assume b: "blank (member obj k)"
  show "get obj (k # ks) = get obj ks"
    by (simp add: get_step blank_not_filled [OF b] del: get.simps)
  show "pick obj (k # ks) = pick obj ks"
    by (simp add: pick_step blank_not_filled [OF b] del: pick.simps)
next
  assume f: "truthy obj \<and> filled (member obj k)"
  show "get obj (k # ks) = member obj k" using f by (simp add: get_step del: get.simps)
  show "pick obj (k # ks) = member obj k" using f by (simp add: pick_step del: pick.simps)
next
  assume a: "\<forall>k\<in>set ks. blank (member obj k)"
  show "js_or (get obj ks) d = d" by (simp add: get_all_blank [OF a] js_or_def)
  show "js_or (pick obj ks) d = d" by (simp add: pick_all_blank [OF a] js_or_def)
next
  show "get (Obj [(''city'', Str ''  ''), (''town'', Str ''B'')]) [''city'', ''town''] = Str ''B''"
    by code_simp
  show "pick (Obj [(''city'', Str ''  ''), (''town'', Str ''B'')]) [''city'', ''town''] = Str ''B''"
    by code_simp
  show "get (Obj [(''city'', Str ''A''), (''town'', Str ''B'')]) [''city'', ''town''] = Str ''A''"
    by code_simp
  show "pick (Obj [(''city'', Str ''A''), (''town'', Str ''B'')]) [''city'', ''town''] = Str ''A''"
    by code_simp
  show "get (Obj [(''city'', Str [CHR 0x20, CHR 0xC2, CHR 0xA0]), (''town'', Str ''B'')])
        [''city'', ''town''] = Str ''B''"
    by code_simp
  show "pick (Obj [(''city'', Str [CHR 0x20, CHR 0xC2, CHR 0xA0]), (''town'', Str ''B'')])
        [''city'', ''town''] = Str ''B''"
    by code_simp
qed

theorem alias_resolution_skips_blank_witness:
  "blank (member address_sample ''city'')
   \<and> blank (member address_sample ''zip'')
   \<and> truthy address_sample
   \<and> filled (member address_sample ''town'')
   \<and> get address_sample [''city'', ''town'', ''zip''] = Str ''B''
   \<and> pick address_sample [''town'', ''city''] = Str ''B''
   \<and> js_or (pick address_sample [''city'', ''zip'']) (Str ''fallback'') = Str ''fallback''"
proof -
  have b: "blank (member address_sample ''city'')" by code_simp
  have z: "blank (member address_sample ''zip'')" by code_simp
  have t: "truthy address_sample" by code_simp
  have f: "filled (member address_sample ''town'')" by code_simp
  have m: "member address_sample ''town'' = Str ''B''" by code_simp
  have a: "\<forall>k\<in>set [''city'', ''zip'']. blank (member address_sample k)" using b z by simp
  note first = alias_resolution_skips_blank
      [of address_sample "''city''" "[''town'', ''zip'']" Undefined]
  note second = alias_resolution_skips_blank
      [of address_sample "''town''" "[''zip'']" Undefined]
  note third = alias_resolution_skips_blank
      [of address_sample "''town''" "[''city'']" Undefined]
  note fourth = alias_resolution_skips_blank
      [of address_sample "''city''" "[''city'', ''zip'']" "Str ''fallback''"]
  have "get address_sample [''city'', ''town'', ''zip''] = get address_sample [''town'', ''zip'']"
    using first b by blast
  moreover have "get address_sample [''town'', ''zip''] = Str ''B''"
    using second t f m by simp
  moreover have "pick address_sample [''town'', ''city''] = Str ''B''"
    using third t f m by simp
  moreover have "js_or (pick address_sample [''city'', ''zip'']) (Str ''fallback'') = Str ''fallback''"
    using fourth a by blast
  ultimately show ?thesis using b z t f by simp
qed

subsection \<open>The retrying request executor\<close>

lemma safeFetch_loop_last:
  "safeFetch_loop net url r d r =
     (if succeeded (net url r) then (Inr (response_of (net url r)), [Attempt url])
      else (Inl (error_of (net url r)), [Attempt url]))"
  by (subst safeFetch_loop.simps) (simp add: Let_def split: outcome.splits)

lemma safeFetch_loop_step:
  "i < r \<Longrightarrow> safeFetch_loop net url r d i =
     (if succeeded (net url i) then (Inr (response_of (net url i)), [Attempt url])
      else (fst (safeFetch_loop net url r d (Suc i)),
            Attempt url # Sleep d # snd (safeFetch_loop net url r d (Suc i))))"
  by (subst safeFetch_loop.simps) (simp add: Let_def split: outcome.splits prod.splits)

text \<open>
  C6. With the defaults (2 retries, 500 ms) the executor calls \<open>fetch\<close> at most three
  times for a request, sleeps 500 ms between two consecutive attempts and not after the
  last, returns the response of the first attempt that has a 2xx status, and when all
  three fail throws the error of the third attempt: its HTTP status, status text and
  response text, or the exception of the transport.
\<close>

theorem safeFetch_three_attempts:
  "safeFetch net url 2 500 =
     (if succeeded (net url 0) then (Inr (response_of (net url 0)), [Attempt url])
      else if succeeded (net url 1) then
        (Inr (response_of (net url 1)), [Attempt url, Sleep 500, Attempt url])
      else if succeeded (net url 2) then
        (Inr (response_of (net url 2)), [Attempt url, Sleep 500, Attempt url, Sleep 500, Attempt url])
      else
        (Inl (error_of (net url 2)), [Attempt url, Sleep 500, Attempt url, Sleep 500, Attempt url]))"
proof -
  have l2: "safeFetch_loop net url 2 500 2 =
     (if succeeded (net url 2) then (Inr (response_of (net url 2)), [Attempt url])
      else (Inl (error_of (net url 2)), [Attempt url]))"
    by (rule safeFetch_loop_last)
  have l1: "safeFetch_loop net url 2 500 1 =
     (if succeeded (net url 1) then (Inr (response_of (net url 1)), [Attempt url])
      else (fst (safeFetch_loop net url 2 500 2),
            Attempt url # Sleep 500 # snd (safeFetch_loop net url 2 500 2)))"
    using safeFetch_loop_step [of 1 2 net url 500] by (simp add: numeral_2_eq_2)
  have l0: "safeFetch_loop net url 2 500 0 =
     (if succeeded (net url 0) then (Inr (response_of (net url 0)), [Attempt url])
      else (fst (safeFetch_loop net url 2 500 1),
            Attempt url # Sleep 500 # snd (safeFetch_loop net url 2 500 1)))"
    using safeFetch_loop_step [of 0 2 net url 500] by simp
  show ?thesis unfolding safeFetch_def l0 l1 l2 by simp
qed

theorem safeFetch_three_attempts_witness:
  "safeFetch net_flaky orders_page_1 2 500 =
     (Inr (Some \<lparr> status = 200, statusText = ''OK'', body_text = None,
                    body_json = Some (Arr [Num 1]) \<rparr>),
      [Attempt orders_page_1, Sleep 500, Attempt orders_page_1, Sleep 500, Attempt orders_page_1])
   \<and> error_of (net_flaky orders_page_1 0) = HttpError 503 ''Service Unavailable'' ''busy''
   \<and> error_of (net_flaky orders_page_1 1) = TransportError ''ECONNRESET''"
  using safeFetch_three_attempts [of net_flaky orders_page_1]
  by (simp add: net_flaky_def unavailable_def json_ok_def ok_def)

subsection \<open>The paginated fetcher\<close>

lemma loop_continue:
  assumes "page_items e net pth params pageSize opts page = Some a"
    and "a \<noteq> []" and "\<not> length a < pageSize"
  shows "fetchAllPages_loop e net pth params pageSize opts page out calls =
         fetchAllPages_loop e net pth params pageSize opts (page + 1) (out @ a)
           (calls @ [page_request e pth params pageSize opts page])"
  using assms
  by (subst fetchAllPages_loop.simps)
     (auto simp: page_items_def Let_def split: sum.splits option.splits)

lemma loop_short:
  assumes "page_items e net pth params pageSize opts page = Some a"
    and "length a < pageSize"
  shows "fetchAllPages_loop e net pth params pageSize opts page out calls =
         Some (Inr (out @ a), calls @ [page_request e pth params pageSize opts page])"
  using assms
  by (subst fetchAllPages_loop.simps)
     (auto simp: page_items_def Let_def split: sum.splits option.splits)

lemma loop_empty:
  assumes "page_items e net pth params pageSize opts page = Some []"
  shows "fetchAllPages_loop e net pth params pageSize opts page out calls =
         Some (Inr out, calls @ [page_request e pth params pageSize opts page])"
  using assms
  by (subst fetchAllPages_loop.simps)
     (auto simp: page_items_def Let_def split: sum.splits option.splits)

lemma loop_throw:
  assumes "fst (safeFetch net (page_request e pth params pageSize opts page) 2 500) = Inl err"
  shows "fetchAllPages_loop e net pth params pageSize opts page out calls =
         Some (Inl err, calls @ [page_request e pth params pageSize opts page])"
  using assms
  by (subst fetchAllPages_loop.simps) (simp add: Let_def)

lemma loop_full_then_throw:
  assumes "\<And>p. start \<le> p \<Longrightarrow> p < start + n \<Longrightarrow>
             page_items e net pth params pageSize opts p = Some (a p) \<and> a p \<noteq> []
             \<and> \<not> length (a p) < pageSize"
    and "fst (safeFetch net (page_request e pth params pageSize opts (start + n)) 2 500) = Inl err"
  shows "fetchAllPages_loop e net pth params pageSize opts start out calls =
         Some (Inl err, calls @ map (page_request e pth params pageSize opts) [start..<Suc (start + n)])"
  using assms
proof (induction n arbitrary: start out calls)
  case 0
  then show ?case by (simp add: loop_throw)
next
  case (Suc n)
  have here: "page_items e net pth params pageSize opts start = Some (a start)"
    "a start \<noteq> []" "\<not> length (a start) < pageSize"
    using Suc.prems(1) [of start] by simp_all
  have rest: "fetchAllPages_loop e net pth params pageSize opts (Suc start) (out @ a start)
        (calls @ [page_request e pth params pageSize opts start]) =
      Some (Inl err, (calls @ [page_request e pth params pageSize opts start])
         @ map (page_request e pth params pageSize opts) [Suc start..<Suc (Suc start + n)])"
  proof (rule Suc.IH)
    fix p assume "Suc start \<le> p" "p < Suc start + n"
    then show "page_items e net pth params pageSize opts p = Some (a p) \<and> a p \<noteq> []
             \<and> \<not> length (a p) < pageSize"
      using Suc.prems(1) [of p] by simp
  next
    show "fst (safeFetch net (page_request e pth params pageSize opts (Suc start + n)) 2 500) = Inl err"
      using Suc.prems(2) by simp
  qed
  have "[start..<Suc (start + Suc n)] = start # [Suc start..<Suc (Suc start + n)]"
    by (simp add: upt_conv_Cons)
  then show ?case
    using loop_continue [OF here, of out calls] rest by simp
qed

lemma shop_orders_request:
  "page_request shop ''/orders'' (Obj []) 2 (Obj []) p =
     \<lparr> base = ''https://shop.mybrightsites.com/api/v2.6.1'', path = ''/orders'',
       query = [(''page'', show_int (int p)), (''per_page'', ''2''), (''token'', ''secret'')] \<rparr>"
  by (simp add: page_request_def shop_def object_assign_def assign_from_def js_or_def
      own_lookup_def api_base_def show_int_def digit_char_def)

lemma net_2_2_1_page_1:
  "page_items shop net_2_2_1 ''/orders'' (Obj []) 2 (Obj []) 1 = Some [Num 1, Num 2]"
  by code_simp

lemma net_2_2_1_page_2:
  "page_items shop net_2_2_1 ''/orders'' (Obj []) 2 (Obj []) 2 = Some [Num 3, Num 4]"
  by code_simp

lemma net_2_2_1_page_3:
  "page_items shop net_2_2_1 ''/orders'' (Obj []) 2 (Obj []) 3 = Some [Num 5]"
  by code_simp

text \<open>
  C2, as amended. For every page size \<open>N \<ge> 1\<close>, when pages 1, 2 and 3 of the resource
  contain \<open>N\<close>, \<open>N\<close> and \<open>N - 1\<close> items, the fetcher returns the items of the three pages
  in order, \<open>2 * N + (N - 1)\<close> of them, and hands exactly three requests to the executor,
  for the pages 1, 2 and 3: there is no fourth.
\<close>

theorem fetchAllPages_N_N_N1:
  assumes "1 \<le> N"
    and "page_items e net pth params N opts 1 = Some a1" and "length a1 = N"
    and "page_items e net pth params N opts 2 = Some a2" and "length a2 = N"
    and "page_items e net pth params N opts 3 = Some a3" and "length a3 = N - 1"
  shows "fetchAllPages e net pth params N opts =
           Some (Inr (a1 @ a2 @ a3), map (page_request e pth params N opts) [1, 2, 3])
         \<and> length (a1 @ a2 @ a3) = 2 * N + (N - 1)"
proof -
  have ne: "a1 \<noteq> []" "a2 \<noteq> []" and full: "\<not> length a1 < N" "\<not> length a2 < N"
    using assms by auto
  have short: "length a3 < N" using assms by simp
  have "fetchAllPages e net pth params N opts =
        fetchAllPages_loop e net pth params N opts 2 a1 [page_request e pth params N opts 1]"
    unfolding fetchAllPages_def
    using loop_continue [OF assms(2) ne(1) full(1), of "[]" "[]"] by (simp add: numeral_2_eq_2)
  also have "\<dots> = fetchAllPages_loop e net pth params N opts 3 (a1 @ a2)
        [page_request e pth params N opts 1, page_request e pth params N opts 2]"
    using loop_continue [OF assms(4) ne(2) full(2), of a1 "[page_request e pth params N opts 1]"]
    by (simp add: numeral_2_eq_2 numeral_3_eq_3)
  also have "\<dots> = Some (Inr ((a1 @ a2) @ a3),
        [page_request e pth params N opts 1, page_request e pth params N opts 2]
          @ [page_request e pth params N opts 3])"
    by (rule loop_short [OF assms(6) short])
  finally show ?thesis using assms by simp
qed

theorem fetchAllPages_N_N_N1_witness:
  "fetchAllPages shop net_2_2_1 ''/orders'' (Obj []) 2 (Obj []) =
     Some (Inr [Num 1, Num 2, Num 3, Num 4, Num 5],
           map (page_request shop ''/orders'' (Obj []) 2 (Obj [])) [1, 2, 3])
   \<and> length [Num 1, Num 2, Num 3, Num 4, Num 5] = 2 * 2 + (2 - 1)"
  using fetchAllPages_N_N_N1 [OF _ net_2_2_1_page_1 _ net_2_2_1_page_2 _ net_2_2_1_page_3]
  by simp

text \<open>The specification as written asks for \<open>3 * N + (N - 1)\<close> items. With five orders and pages of
  two, the pages hold 2, 2 and 1 items and the fetcher returns 5 items, not 7.\<close>

theorem fetchAllPages_count_counterexample:
  "map_option length (page_items shop net_2_2_1 ''/orders'' (Obj []) 2 (Obj []) 1) = Some 2
   \<and> map_option length (page_items shop net_2_2_1 ''/orders'' (Obj []) 2 (Obj []) 2) = Some 2
   \<and> map_option length (page_items shop net_2_2_1 ''/orders'' (Obj []) 2 (Obj []) 3) = Some (2 - 1)
   \<and> map_option (\<lambda>r. map_sum id length (fst r))
        (fetchAllPages shop net_2_2_1 ''/orders'' (Obj []) 2 (Obj [])) = Some (Inr 5)
   \<and> (5 :: nat) \<noteq> 3 * 2 + (2 - 1)"
  by code_simp

lemma loaders_swallow:
  assumes "fetchAllPages e net (''/orders/'' @ ToString orderId @ sub) (Obj []) 200 opts
             = Some (Inl err, calls)"
  shows "sub = ''/line_items'' \<Longrightarrow> loadLineItems e net orderId opts = Some (Arr [])"
    and "sub = ''/shipments'' \<Longrightarrow> loadShipments e net orderId opts = Some (Arr [])"
  using assms by (simp_all add: loadLineItems_def loadShipments_def)

lemma safeFetch_loop_responds:
  "i \<le> r \<Longrightarrow> fst (safeFetch_loop net url r d i) \<noteq> Inr None"
proof (induction "r - i" arbitrary: i)
  case 0
  then have "i = r" by simp
  then show ?case
    by (cases "net url r") (simp_all add: safeFetch_loop_last)
next
  case (Suc n)
  then have less: "i < r" and next_ok: "fst (safeFetch_loop net url r d (Suc i)) \<noteq> Inr None"
    by simp_all
  show ?case
    using next_ok by (cases "net url i") (simp_all add: safeFetch_loop_step [OF less])
qed

lemma handler_fails:
  assumes "fetchAllPages e net ''/orders'' params 200 opts = Some (Inl err, calls)"
  shows "api_run e net opts reportType params = Some (Inl err)"
  using assms by (simp add: api_run_def)

text \<open>
  C3. The specification has the paginated fetch stop when the executor fails and yield what it
  accumulated, with no error for its caller. The code tests for a missing response
  (\<open>if (!res) break;\<close>), but with its two retries the executor never returns without a
  response: when its attempts are used up it throws, and \<open>fetchAllPages\<close> has no \<open>try\<close>
  around the call. So when the executor fails on page \<open>k\<close>, the pages before it having
  been full, \<open>fetchAllPages\<close> throws that error to its caller after \<open>k\<close> requests and the
  items of the earlier pages are lost. \<open>loadLineItems\<close> and \<open>loadShipments\<close> catch the
  error and return the empty list; the handler of \<open>/api/run\<close>, which fetches the orders
  by the same call, is left by the error and answers with status 500.
\<close>

theorem executor_failure_propagates:
  assumes "\<forall>p. 1 \<le> p \<and> p < k \<longrightarrow>
             page_items e net pth params pageSize opts p = Some (a p) \<and> a p \<noteq> []
             \<and> \<not> length (a p) < pageSize"
    and "1 \<le> k"
    and "fst (safeFetch net (page_request e pth params pageSize opts k) 2 500) = Inl err"
  shows "(\<forall>url. fst (safeFetch net url 2 500) \<noteq> Inr None)
         \<and> fetchAllPages e net pth params pageSize opts =
           Some (Inl err, map (page_request e pth params pageSize opts) [1..<Suc k])
         \<and> (pth = ''/orders/'' @ ToString orderId @ ''/line_items'' \<and> params = Obj []
              \<and> pageSize = 200 \<longrightarrow> loadLineItems e net orderId opts = Some (Arr []))
         \<and> (pth = ''/orders/'' @ ToString orderId @ ''/shipments'' \<and> params = Obj []
              \<and> pageSize = 200 \<longrightarrow> loadShipments e net orderId opts = Some (Arr []))
         \<and> (pth = ''/orders'' \<and> pageSize = 200 \<longrightarrow>
              api_run e net opts reportType params = Some (Inl err))"
proof -
  obtain n where n: "k = Suc n" using assms(2) by (cases k) auto
  have responds: "\<forall>url. fst (safeFetch net url 2 500) \<noteq> Inr None"
    by (simp add: safeFetch_def safeFetch_loop_responds)
  have thrown: "fetchAllPages e net pth params pageSize opts =
      Some (Inl err, map (page_request e pth params pageSize opts) [1..<Suc k])"
    unfolding fetchAllPages_def
    using loop_full_then_throw [of 1 n e net pth params pageSize opts a err "[]" "[]"] assms(1,3) n
    by simp
  have handler: "api_run e net opts reportType params = Some (Inl err)"
    if "pth = ''/orders'' \<and> pageSize = 200"
    using thrown that handler_fails [of e net params opts err _ reportType] by simp
  show ?thesis
    using responds thrown handler loaders_swallow [of e net orderId _ opts err] by auto
qed

theorem executor_failure_propagates_witness:
  "page_items shop net_full_then_down ''/orders/7/line_items'' (Obj []) 200 (Obj []) 1
     = Some (replicate 200 (Num 0))
   \<and> fst (safeFetch net_full_then_down
        (page_request shop ''/orders/7/line_items'' (Obj []) 200 (Obj []) 2) 2 500)
     = Inl (HttpError 503 ''Service Unavailable'' ''busy'')
   \<and> fetchAllPages shop net_full_then_down ''/orders/7/line_items'' (Obj []) 200 (Obj []) =
     Some (Inl (HttpError 503 ''Service Unavailable'' ''busy''),
           map (page_request shop ''/orders/7/line_items'' (Obj []) 200 (Obj [])) [1, 2])
   \<and> loadLineItems shop net_full_then_down (Num 7) (Obj []) = Some (Arr [])
   \<and> page_items shop net_full_then_down ''/orders'' (Obj []) 200 (Obj []) 1
     = Some (replicate 200 (Num 0))
   \<and> api_run shop net_full_then_down (Obj []) ''Needed Excel'' (Obj [])
     = Some (Inl (HttpError 503 ''Service Unavailable'' ''busy''))"
proof -
  let ?a = "\<lambda>p::nat. replicate 200 (Num 0)"
  have p1: "page_items shop net_full_then_down ''/orders/7/line_items'' (Obj []) 200 (Obj []) 1
      = Some (replicate 200 (Num 0))"
    by code_simp
  have full: "\<forall>p. 1 \<le> p \<and> p < 2 \<longrightarrow>
      page_items shop net_full_then_down ''/orders/7/line_items'' (Obj []) 200 (Obj []) p = Some (?a p)
      \<and> ?a p \<noteq> [] \<and> \<not> length (?a p) < 200"
  proof (intro allI impI)
    fix p :: nat assume "1 \<le> p \<and> p < 2"
    then have "p = 1" by simp
    then show "page_items shop net_full_then_down ''/orders/7/line_items'' (Obj []) 200 (Obj []) p
        = Some (?a p) \<and> ?a p \<noteq> [] \<and> \<not> length (?a p) < 200"
      using p1 by simp
  qed
  have down: "fst (safeFetch net_full_then_down
      (page_request shop ''/orders/7/line_items'' (Obj []) 200 (Obj []) 2) 2 500)
      = Inl (HttpError 503 ''Service Unavailable'' ''busy'')"
    by code_simp
  have o1: "page_items shop net_full_then_down ''/orders'' (Obj []) 200 (Obj []) 1
      = Some (replicate 200 (Num 0))"
    by code_simp
  have orders_full: "\<forall>p. 1 \<le> p \<and> p < 2 \<longrightarrow>
      page_items shop net_full_then_down ''/orders'' (Obj []) 200 (Obj []) p = Some (?a p)
      \<and> ?a p \<noteq> [] \<and> \<not> length (?a p) < 200"
  proof (intro allI impI)
    fix p :: nat assume "1 \<le> p \<and> p < 2"
    then have "p = 1" by simp
    then show "page_items shop net_full_then_down ''/orders'' (Obj []) 200 (Obj []) p
        = Some (?a p) \<and> ?a p \<noteq> [] \<and> \<not> length (?a p) < 200"
      using o1 by simp
  qed
  have orders_down: "fst (safeFetch net_full_then_down
      (page_request shop ''/orders'' (Obj []) 200 (Obj []) 2) 2 500)
      = Inl (HttpError 503 ''Service Unavailable'' ''busy'')"
    by code_simp
  have seven: "ToString (Num 7) = ''7''" by code_simp
  have two: "[1..<Suc 2] = [1, 2]" by code_simp
  note inst = executor_failure_propagates [OF full _ down, of "Num 7"]
  note handler = executor_failure_propagates [OF orders_full _ orders_down, of Null "''Needed Excel''"]
  have thrown: "fetchAllPages shop net_full_then_down ''/orders/7/line_items'' (Obj []) 200 (Obj []) =
     Some (Inl (HttpError 503 ''Service Unavailable'' ''busy''),
           map (page_request shop ''/orders/7/line_items'' (Obj []) 200 (Obj [])) [1, 2])"
    using inst unfolding two by simp
  have caught: "loadLineItems shop net_full_then_down (Num 7) (Obj []) = Some (Arr [])"
    using inst unfolding seven by simp
  have failed: "api_run shop net_full_then_down (Obj []) ''Needed Excel'' (Obj [])
     = Some (Inl (HttpError 503 ''Service Unavailable'' ''busy''))"
    using handler by simp
  show ?thesis using p1 down thrown caught o1 failed by (intro conjI)
qed

subsection \<open>Tracking resolution\<close>

lemma bindE_Inr: "bindE (Inr x) f = f x"
  by (simp add: bindE_def)

lemma digits_not_id: "digits n \<noteq> ''id''"
proof
  assume eq: "digits n = ''id''"
  have "last (digits n) = digit_char n" by (subst digits.simps) simp
  with eq have d: "digit_char n = CHR ''d''" by simp
  have "digit_char n \<in> set ''0123456789''"
    unfolding digit_char_def by (rule nth_mem) simp
  with d show False by simp
qed

lemma index_props_no_id: "own_lookup (zip (map digits ns) vs) ''id'' = Undefined"
proof -
  have "''id'' \<notin> fst ` set (zip (map digits ns) vs)"
  proof
    assume "''id'' \<in> fst ` set (zip (map digits ns) vs)"
    then obtain v where "(''id'', v) \<in> set (zip (map digits ns) vs)" by force
    then have "''id'' \<in> set (map digits ns)" by (rule set_zip_leftD)
    then obtain n where "digits n = ''id''" by (auto simp del: digits.simps)
    with digits_not_id show False by blast
  qed
  then have "map_of (zip (map digits ns) vs) ''id'' = None" by (simp add: map_of_eq_None_iff)
  then show ?thesis by (simp add: own_lookup_def)
qed

lemma embedded_ok_id:
  assumes "embedded_ok x"
  shows "read_prop x ''id'' = Inr (member x ''id'')"
    and "ToString (js_or (member x ''id'') x) = ToString (embedded_id x)"
  using assms
  by (cases x; simp add: embedded_ok_def embedded_id_def read_prop_def nullish_def js_or_def
      index_props_no_id)+

lemma tracking_field_cases:
  assumes "tracking_field_ok v"
  shows "truthy v = non_empty v" and "non_empty v \<Longrightarrow> primitive v"
  using assms by (cases v; simp add: tracking_field_ok_def non_empty_def)+

lemma shipment_ok_tracking:
  assumes "shipment_ok s"
  shows "truthy (js_or (member s ''tracking_number'') (js_or (member s ''tracking'') (Str [])))
           = non_empty (tracking_number_of s)"
    and "non_empty (tracking_number_of s) \<Longrightarrow>
           js_or (member s ''tracking_number'') (js_or (member s ''tracking'') (Str []))
             = tracking_number_of s"
    and "non_empty (tracking_number_of s) \<Longrightarrow> primitive (tracking_number_of s)"
    and "non_empty (tracking_number_of s) \<Longrightarrow> truthy (tracking_number_of s)"
proof -
  from assms have tn: "tracking_field_ok (member s ''tracking_number'')"
    by (simp add: shipment_ok_def)
  show "truthy (js_or (member s ''tracking_number'') (js_or (member s ''tracking'') (Str [])))
           = non_empty (tracking_number_of s)"
  proof (cases "non_empty (member s ''tracking_number'')")
    case True
    with tracking_field_cases(1) [OF tn] show ?thesis
      by (simp add: js_or_def tracking_number_of_def)
  next
    case False
    with assms have tr: "tracking_field_ok (member s ''tracking'')" by (simp add: shipment_ok_def)
    from False tracking_field_cases(1) [OF tn] tracking_field_cases(1) [OF tr] show ?thesis
      by (simp add: js_or_def tracking_number_of_def)
  qed
  assume ne: "non_empty (tracking_number_of s)"
  show "js_or (member s ''tracking_number'') (js_or (member s ''tracking'') (Str []))
             = tracking_number_of s"
  proof (cases "non_empty (member s ''tracking_number'')")
    case True
    with tracking_field_cases(1) [OF tn] show ?thesis
      by (simp add: js_or_def tracking_number_of_def)
  next
    case False
    with assms have tr: "tracking_field_ok (member s ''tracking'')" by (simp add: shipment_ok_def)
    from False ne tracking_field_cases(1) [OF tn] tracking_field_cases(1) [OF tr] show ?thesis
      by (simp add: js_or_def tracking_number_of_def)
  qed
  show "primitive (tracking_number_of s)"
  proof (cases "non_empty (member s ''tracking_number'')")
    case True
    with tracking_field_cases(2) [OF tn] show ?thesis by (simp add: tracking_number_of_def)
  next
    case False
    with assms have tr: "tracking_field_ok (member s ''tracking'')" by (simp add: shipment_ok_def)
    from False ne tracking_field_cases(2) [OF tr] show ?thesis by (simp add: tracking_number_of_def)
  qed
  show "truthy (tracking_number_of s)"
  proof (cases "non_empty (member s ''tracking_number'')")
    case True
    with tracking_field_cases(1) [OF tn] show ?thesis by (simp add: tracking_number_of_def)
  next
    case False
    with assms have tr: "tracking_field_ok (member s ''tracking'')" by (simp add: shipment_ok_def)
    from False ne tracking_field_cases(1) [OF tr] show ?thesis by (simp add: tracking_number_of_def)
  qed
qed

lemma mapE_total: "mapE (\<lambda>x. Inr (f x)) xs = Inr (map f xs)"
  by (induction xs) simp_all

lemma mapE_read_id:
  "list_all embedded_ok xs \<Longrightarrow>
   mapE (\<lambda>x. bindE (read_prop x ''id'') (\<lambda>i. Inr (ToString (js_or i x)))) xs
     = Inr (map (\<lambda>x. ToString (embedded_id x)) xs)"
  by (induction xs) (simp_all add: embedded_ok_id bindE_Inr)

lemma list_field_or:
  assumes "list_field_ok v"
  shows "js_or v (Arr []) = Arr (elements v)"
  using assms by (cases v) (simp_all add: list_field_ok_def js_or_def split: if_splits)

lemma shipment_ok_ids:
  assumes "shipment_ok s" and "non_empty (tracking_number_of s)"
  shows "line_item_ids_of s = Inr (map ToString (elements (member s ''line_item_ids'')))"
    and "embedded_ids_of s
           = Inr (map (\<lambda>x. ToString (embedded_id x)) (elements (member s ''line_items'')))"
proof -
  from assms have a: "list_field_ok (member s ''line_item_ids'')"
    and b: "list_field_ok (member s ''line_items'')"
    and c: "list_all embedded_ok (elements (member s ''line_items''))"
    by (simp_all add: shipment_ok_def)
  show "line_item_ids_of s = Inr (map ToString (elements (member s ''line_item_ids'')))"
    by (simp add: line_item_ids_of_def list_field_or [OF a] mapE_total)
  show "embedded_ids_of s
           = Inr (map (\<lambda>x. ToString (embedded_id x)) (elements (member s ''line_items'')))"
    by (simp add: embedded_ids_of_def list_field_or [OF b] mapE_read_id [OF c])
qed

lemma tracking_step_ok:
  assumes "shipment_ok s"
  shows "tracking_step lid found s =
     Inr (if non_empty (tracking_number_of s) \<and> references s lid
          then set_add found (tracking_number_of s) else found)"
proof -
  have r: "read_prop s ''tracking_number'' = Inr (member s ''tracking_number'')"
    using assms by (simp add: read_prop_def shipment_ok_def)
  show ?thesis
  proof (cases "non_empty (tracking_number_of s)")
    case True
    then show ?thesis
      unfolding tracking_step_def r
      by (simp add: Let_def bindE_Inr shipment_ok_tracking(1,2) [OF assms]
          shipment_ok_ids [OF assms True] shipment_ok_tracking(4) [OF assms True] references_def)
  next
    case False
    then show ?thesis
      unfolding tracking_step_def r
      by (simp add: Let_def bindE_Inr shipment_ok_tracking(1) [OF assms])
  qed
qed

lemma foldE_tracking_ok:
  "list_all shipment_ok ss \<Longrightarrow>
   foldE (tracking_step lid) found ss =
     Inr (foldl set_add found
            (map tracking_number_of
               (filter (\<lambda>s. non_empty (tracking_number_of s) \<and> references s lid) ss)))"
  by (induction ss arbitrary: found) (simp_all add: tracking_step_ok)

lemma foldl_set_add_primitive:
  "list_all primitive vs \<Longrightarrow>
   foldl set_add acc vs = acc @ dedup (filter (\<lambda>v. v \<notin> set acc) vs)"
proof (induction vs arbitrary: acc)
  case Nil
  show ?case by simp
next
  case (Cons v vs)
  then have p: "primitive v" and ps: "list_all primitive vs" by simp_all
  show ?case
  proof (cases "v \<in> set acc")
    case True
    then show ?thesis using Cons.IH [OF ps, of acc] p by (simp add: set_add_def)
  next
    case False
    have "filter (\<lambda>u. u \<notin> set (acc @ [v])) vs
        = filter (\<lambda>y. y \<noteq> v) (filter (\<lambda>u. u \<notin> set acc) vs)"
      by (induction vs) auto
    then show ?thesis using False Cons.IH [OF ps, of "acc @ [v]"] by (simp add: set_add_def)
  qed
qed

lemma dedup_Nil_iff: "dedup xs = [] \<longleftrightarrow> xs = []"
  by (cases xs) simp_all

lemma map_dedup_inj: "inj_on f (set xs) \<Longrightarrow> map f (dedup xs) = dedup (map f xs)"
proof (induction xs rule: dedup.induct)
  case 1
  show ?case by simp
next
  case (2 x xs)
  have sub: "set (filter (\<lambda>y. y \<noteq> x) xs) \<subseteq> set (x # xs)" by auto
  have inj: "inj_on f (set (filter (\<lambda>y. y \<noteq> x) xs))"
    by (rule inj_on_subset [OF "2.prems" sub])
  have "filter (\<lambda>y. y \<noteq> f x) (map f xs) = map f (filter (\<lambda>y. y \<noteq> x) xs)"
    using "2.prems" by (induction xs) (auto simp: inj_on_def)
  then show ?case using "2.IH" [OF inj] by simp
qed

lemma renders_apart_inj: "renders_apart vs \<Longrightarrow> inj_on ToString (set vs)"
  by (auto simp: renders_apart_def list_all_iff inj_on_def)

lemma js_join_truthy: "list_all truthy vs \<Longrightarrow> js_join sep vs = intercalate sep (map ToString vs)"
proof -
  assume "list_all truthy vs"
  then have "map (\<lambda>x. if nullish x then [] else ToString x) vs = map ToString vs"
    by (induction vs) (auto simp: nullish_def)
  then show ?thesis unfolding js_join_def by (rule arg_cong)
qed

lemma any_values:
  "list_all shipment_ok ss \<Longrightarrow>
   filter truthy (map (\<lambda>s. js_or (member s ''tracking_number'')
                              (js_or (member s ''tracking'') (Str []))) ss)
     = filter non_empty (map tracking_number_of ss)"
  by (induction ss) (simp_all add: shipment_ok_tracking(1,2))

lemma tracked_values:
  assumes "list_all shipment_ok ss"
  shows "list_all primitive (filter non_empty (map tracking_number_of (filter P ss)))"
    and "list_all truthy (filter non_empty (map tracking_number_of (filter P ss)))"
  using assms by (induction ss) (simp_all add: shipment_ok_tracking(3,4))

lemma found_values:
  "map tracking_number_of (filter (\<lambda>s. non_empty (tracking_number_of s) \<and> references s lid) ss)
     = filter non_empty (map tracking_number_of (filter (\<lambda>s. references s lid) ss))"
  by (induction ss) simp_all

lemma tracking_on_array:
  assumes ok: "list_all shipment_ok ss"
    and apart: "renders_apart (filter non_empty (map tracking_number_of ss))"
  shows "trackingForLineItem (Obj [(''order'', order), (''shipments'', Arr ss)]) lid
           = Inr (resolved_tracking ss lid)"
proof (cases "ss = []")
  case True
  then show ?thesis
    by (simp add: trackingForLineItem_def read_prop_def nullish_def own_lookup_def bindE_Inr
        resolved_tracking_def direct_tracking_def order_tracking_def)
next
  case False
  let ?direct = "filter non_empty (map tracking_number_of (filter (\<lambda>s. references s lid) ss))"
  let ?all = "filter non_empty (map tracking_number_of ss)"
  have all_eq: "?all = filter non_empty (map tracking_number_of (filter (\<lambda>s. True) ss))" by simp
  have inj_all: "inj_on ToString (set ?all)" by (rule renders_apart_inj [OF apart])
  have "set ?direct \<subseteq> set ?all" by auto
  then have inj_direct: "inj_on ToString (set ?direct)" by (rule inj_on_subset [OF inj_all])
  have prim_direct: "list_all primitive ?direct" and true_direct: "list_all truthy ?direct"
    using tracked_values [OF ok] by simp_all
  have prim_all: "list_all primitive ?all" and true_all: "list_all truthy ?all"
    using tracked_values [OF ok, of "\<lambda>s. True"] by simp_all
  have found: "foldE (tracking_step lid) [] ss = Inr (dedup ?direct)"
    using foldE_tracking_ok [OF ok, of lid "[]"] foldl_set_add_primitive [OF prim_direct, of "[]"]
    by (simp add: found_values)
  have true_dd: "list_all truthy (dedup ?direct)"
  proof -
    have "list_all truthy (dedup xs)" if "list_all truthy xs" for xs :: "jsval list"
      using that by (induction xs rule: dedup.induct) (simp_all add: list_all_iff)
    then show ?thesis using true_direct by blast
  qed
  have true_da: "list_all truthy (dedup ?all)"
  proof -
    have "list_all truthy (dedup xs)" if "list_all truthy xs" for xs :: "jsval list"
      using that by (induction xs rule: dedup.induct) (simp_all add: list_all_iff)
    then show ?thesis using true_all by blast
  qed
  have join_direct: "js_join ''; '' (dedup ?direct) = intercalate ''; '' (direct_tracking ss lid)"
    by (simp add: js_join_truthy [OF true_dd] map_dedup_inj [OF inj_direct] direct_tracking_def)
  have join_all: "js_join ''; '' (dedup ?all) = intercalate ''; '' (order_tracking ss)"
    by (simp add: js_join_truthy [OF true_da] map_dedup_inj [OF inj_all] order_tracking_def)
  have any: "foldl set_add [] ?all = dedup ?all"
    using foldl_set_add_primitive [OF prim_all, of "[]"] by simp
  have none: "order_tracking ss = []" if "?all = []"
    using that by (simp add: order_tracking_def)
  have direct_Nil: "(dedup ?direct = []) = (direct_tracking ss lid = [])"
    by (simp add: direct_tracking_def dedup_Nil_iff)
  show ?thesis
    using False none
    by (simp add: trackingForLineItem_def read_prop_def nullish_def own_lookup_def bindE_Inr
        found any any_values [OF ok] join_direct join_all direct_Nil resolved_tracking_def Let_def)
qed

text \<open>
  C1, as amended. For every order, every line-item id and every list of shipments whose
  tracking fields are strings or numbers (or missing) and whose references are arrays of
  ids and of embedded line items with ids, tracking resolution returns the
  \<open>"; "\<close>-joined, deduplicated, first-seen-order-preserving non-empty tracking numbers
  of the shipments whose id list or embedded line items contain the id (ids compared as
  strings); when that set is empty, because no shipment references the line item or
  because those that do carry no tracking number, it returns the same for all shipments
  of the order; and it returns the empty string when the shipment list is empty or
  absent.
\<close>

theorem tracking_resolution:
  assumes "list_all shipment_ok ss"
    and "renders_apart (filter non_empty (map tracking_number_of ss))"
  shows "trackingForLineItem (Obj [(''order'', order), (''shipments'', Arr ss)]) lid
           = Inr (resolved_tracking ss lid)
    \<and> trackingForLineItem (Obj [(''order'', order), (''shipments'', Arr [])]) lid = Inr []
    \<and> trackingForLineItem (Obj [(''order'', order)]) lid = Inr []
    \<and> trackingForLineItem Undefined lid = Inr []"
  using tracking_on_array [OF assms]
  by (simp add: trackingForLineItem_def read_prop_def nullish_def bindE_Inr own_lookup_def)


theorem tracking_resolution_witness:
  "list_all shipment_ok [shipment_T2, shipment_123, shipment_untracked, shipment_T1, shipment_123]
   \<and> renders_apart (filter non_empty (map tracking_number_of
         [shipment_T2, shipment_123, shipment_untracked, shipment_T1, shipment_123]))
   \<and> trackingForLineItem (Obj [(''order'', Obj []),
        (''shipments'', Arr [shipment_T2, shipment_123, shipment_untracked, shipment_T1, shipment_123])])
        (Num 1) = Inr ''123; T1''
   \<and> trackingForLineItem (Obj [(''order'', Obj []),
        (''shipments'', Arr [shipment_T2, shipment_123, shipment_untracked, shipment_T1, shipment_123])])
        (Num 9) = Inr ''123''
   \<and> trackingForLineItem (Obj [(''order'', Obj []),
        (''shipments'', Arr [shipment_T2, shipment_123, shipment_untracked, shipment_T1, shipment_123])])
        (Num 5) = Inr ''T2; 123; T1''"
proof -
  let ?ss = "[shipment_T2, shipment_123, shipment_untracked, shipment_T1, shipment_123]"
  have ok: "list_all shipment_ok ?ss" by code_simp
  have apart: "renders_apart (filter non_empty (map tracking_number_of ?ss))" by code_simp
  have r1: "resolved_tracking ?ss (Num 1) = ''123; T1''" by code_simp
  have r9: "resolved_tracking ?ss (Num 9) = ''123''" by code_simp
  have r5: "resolved_tracking ?ss (Num 5) = ''T2; 123; T1''" by code_simp
  show ?thesis
    using ok apart tracking_resolution [OF ok apart, of "Obj []" "Num 1"]
      tracking_resolution [OF ok apart, of "Obj []" "Num 9"]
      tracking_resolution [OF ok apart, of "Obj []" "Num 5"]
    unfolding r1 r9 r5 by simp
qed

text \<open>The specification as written takes the order-level union only when no shipment references
  the line item. Here the first shipment references line item 1 and has no tracking
  number; that gives the empty string, the code the tracking number of the other
  shipment.\<close>

theorem tracking_fallback_counterexample:
  "list_all shipment_ok [shipment_untracked, shipment_T2]
   \<and> references shipment_untracked (Num 1)
   \<and> trackingForLineItem (Obj [(''order'', Obj []),
        (''shipments'', Arr [shipment_untracked, shipment_T2])]) (Num 1) = Inr ''T2''
   \<and> claimed_tracking [shipment_untracked, shipment_T2] (Num 1) = []"
  by code_simp

text \<open>An embedded line item whose id is \<open>0\<close> is outside these shipments: \<open>x.id || x\<close> passes
  over the id and compares \<open>[object Object]\<close>, so the shipment is not found and the
  resolution falls back to all tracking numbers of the order.\<close>

lemma embedded_id_zero_is_skipped:
  "references shipment_T_item_0 (Num 0)
   \<and> \<not> references shipment_U_item_5 (Num 0)
   \<and> \<not> list_all shipment_ok [shipment_T_item_0, shipment_U_item_5]
   \<and> resolved_tracking [shipment_T_item_0, shipment_U_item_5] (Num 0) = ''T''
   \<and> trackingForLineItem (Obj [(''order'', Obj []),
        (''shipments'', Arr [shipment_T_item_0, shipment_U_item_5])]) (Num 0) = Inr ''T; U''"
  by code_simp

subsection \<open>The rows\<close>



















subsection \<open>Orders without rows, and inputs that make the reconciler throw\<close>

lemma mapE_append:
  "mapE f (xs @ ys) =
     (case mapE f xs of Inl e \<Rightarrow> Inl e
      | Inr a \<Rightarrow> (case mapE f ys of Inl e \<Rightarrow> Inl e | Inr b \<Rightarrow> Inr (a @ b)))"
  by (induction xs) (simp_all split: sum.splits)

lemma slot_rows_marker: "slot_rows (Obj [(''error'', Str err)]) = Inr []"
  by (simp add: slot_rows_def read_prop_def nullish_def bindE_def own_lookup_def)

lemma slot_rows_no_items:
  "slot_rows (Obj [(''order'', order), (''line_items'', Arr []), (''shipments'', shipments)]) = Inr []"
  by (simp add: slot_rows_def read_prop_def nullish_def bindE_def own_lookup_def Let_def)

lemma detailed_rows_skip:
  assumes "slot_rows slot = Inr []"
  shows "detailed_rows (pre @ [slot] @ post) = detailed_rows (pre @ post)"
  using assms
  by (simp add: detailed_rows_def mapE_append bindE_def split: sum.splits)

text \<open>
  C10. In detailed mode an order whose enrichment slot is an error marker, or whose list
  of line items is empty, contributes no row: the rows are those of the other slots, and
  no error row stands for it. So \<open>meta.orders\<close> can exceed the number of orders that
  appear in the rows: of three orders, one that makes the worker throw, one without line
  items and one with a line item, only the last has a row.
\<close>

theorem failed_or_empty_order_has_no_row:
  "slot_rows (Obj [(''error'', Str err)]) = Inr []
   \<and> slot_rows (Obj [(''order'', order), (''line_items'', Arr []), (''shipments'', shipments)]) = Inr []
   \<and> detailed_rows (pre @ [Obj [(''error'', Str err)]] @ post) = detailed_rows (pre @ post)
   \<and> detailed_rows (pre @ [Obj [(''order'', order), (''line_items'', Arr []),
                                  (''shipments'', shipments)]] @ post) = detailed_rows (pre @ post)
   \<and> promisePool [Null, Obj [(''id'', Num 8)], order_7] (enrich_worker shop net_store (Obj [])) 5
       = Some [Obj [(''error'', Str (''TypeError: Cannot read properties of null (reading '' @ [CHR 0x27] @ ''id'' @ [CHR 0x27] @ '')''))],
               Obj [(''order'', Obj [(''id'', Num 8)]), (''line_items'', Arr []), (''shipments'', Arr [])],
               Obj [(''order'', merge_order order_7 order_7_detail),
                    (''line_items'', Arr [line_item_1]), (''shipments'', Arr [shipment_T1])]]
   \<and> run_report shop net_store (Obj []) ''Needed Excel'' [Null, Obj [(''id'', Num 8)], order_7]
       = Some (Inr \<lparr> rows = [row_7_1], meta_orders = 3, meta_rows = 1 \<rparr>)"
proof -
  have pool: "promisePool [Null, Obj [(''id'', Num 8)], order_7] (enrich_worker shop net_store (Obj [])) 5
       = Some [Obj [(''error'', Str (''TypeError: Cannot read properties of null (reading '' @ [CHR 0x27] @ ''id'' @ [CHR 0x27] @ '')''))],
               Obj [(''order'', Obj [(''id'', Num 8)]), (''line_items'', Arr []), (''shipments'', Arr [])],
               Obj [(''order'', merge_order order_7 order_7_detail),
                    (''line_items'', Arr [line_item_1]), (''shipments'', Arr [shipment_T1])]]"
    by code_simp
  have run: "run_report shop net_store (Obj []) ''Needed Excel'' [Null, Obj [(''id'', Num 8)], order_7]
       = Some (Inr \<lparr> rows = [row_7_1], meta_orders = 3, meta_rows = 1 \<rparr>)"
    by code_simp
  show ?thesis
    using pool run slot_rows_marker slot_rows_no_items
      detailed_rows_skip [OF slot_rows_marker] detailed_rows_skip [OF slot_rows_no_items]
    by simp
qed

theorem failed_or_empty_order_has_no_row_witness:
  "slot_rows (Obj [(''error'', Str ''Error: boom'')]) = Inr []
   \<and> detailed_rows ([] @ [Obj [(''error'', Str ''Error: boom'')]] @ []) = detailed_rows ([] @ [])
   \<and> detailed_rows [] = Inr []"
  using failed_or_empty_order_has_no_row [of "''Error: boom''" Null Null "[]" "[]"]
  by (simp add: detailed_rows_def bindE_def)

text \<open>
  C7. The specification has the reconciliation functions never throw, whatever the shape of the
  input. They guard against some missing values (\<open>if (o == null)\<close> in
  \<open>formatProductOptions\<close>, \<open>if (!item)\<close> in \<open>formatProductPersonalization\<close>,
  \<open>if (!obj) continue\<close> in \<open>get\<close>) and miss others: an attribute that is \<open>null\<close>, a
  shipment or an embedded line item that is \<open>null\<close>, a first name that is a number
  (\<open>(first || '').trim()\<close>, where the next lines write \<open>String(oName).trim()\<close>). On
  these the functions throw a \<open>TypeError\<close>.
\<close>

theorem reconciler_throws:
  "formatProductPersonalization
      (Arr [Obj [(''title'', Str ''Mono''), (''attributes'', Arr [Null])]]) = Inl TypeError
   \<and> trackingForLineItem (Obj [(''order'', Obj []), (''shipments'', Arr [Null])]) (Num 1)
       = Inl TypeError
   \<and> trackingForLineItem (Obj [(''order'', Obj []),
        (''shipments'', Arr [Obj [(''tracking_number'', Str ''T''), (''line_items'', Arr [Null])]])])
        (Num 1) = Inl TypeError
   \<and> composeAddressBlob (Obj [(''first_name'', Num 42)]) (Obj []) (Obj []) = Inl TypeError
   \<and> formatProductOptions (Arr [Null, Obj [(''option_name'', Str ''Size''), (''sub_option_name'', Str ''L'')]])
       = ''Size: L''"
  by code_simp

theorem reconciler_throws_witness:
  "formatProductPersonalization
      (Arr [Obj [(''title'', Str ''Mono''), (''attributes'', Arr [Null])]]) \<noteq> Inr []
   \<and> composeAddressBlob (Obj [(''first_name'', Num 42)]) (Obj []) (Obj []) \<noteq> Inr []"
  using reconciler_throws by simp

subsection \<open>The merged order\<close>

lemma map_of_set_prop_at:
  "map_of (set_prop kvs k v) x = (if x = k then Some v else map_of kvs x)"
  by (induction kvs) auto

lemma map_of_assign_props_at:
  "distinct (map fst props) \<Longrightarrow>
   map_of (foldl (\<lambda>t (k, v). set_prop t k v) target props) x
     = (case map_of props x of None \<Rightarrow> map_of target x | Some y \<Rightarrow> Some y)"
proof (induction props arbitrary: target)
  case Nil
  show ?case by simp
next
  case (Cons p props)
  obtain k v where p: "p = (k, v)" by (cases p)
  from Cons.prems p have fresh: "map_of props k = None" and d: "distinct (map fst props)"
    by (simp_all add: map_of_eq_None_iff)
  show ?case
    using Cons.IH [OF d, of "set_prop target k v"] fresh p
    by (simp add: map_of_set_prop_at split: option.splits)
qed

lemma map_of_assign_props:
  "distinct (map fst props) \<Longrightarrow>
   map_of (foldl (\<lambda>t (k, v). set_prop t k v) target props) = map_of target ++ map_of props"
  by (rule ext) (simp add: map_of_assign_props_at map_add_def)

lemma assign_props_fresh:
  "distinct (map fst (target @ props)) \<Longrightarrow>
   foldl (\<lambda>t (k, v). set_prop t k v) target props = target @ props"
proof (induction props arbitrary: target)
  case Nil
  show ?case by simp
next
  case (Cons p props)
  obtain k v where p: "p = (k, v)" by (cases p)
  have app: "\<And>t. k \<notin> set (map fst t) \<Longrightarrow> set_prop t k v = t @ [(k, v)]"
  proof -
    fix t :: "(string \<times> jsval) list"
    show "k \<notin> set (map fst t) \<Longrightarrow> set_prop t k v = t @ [(k, v)]"
      by (induction t) auto
  qed
  from Cons.prems p have "k \<notin> set (map fst target)" by auto
  then have "set_prop target k v = target @ [(k, v)]" by (rule app)
  moreover from Cons.prems p have "distinct (map fst ((target @ [(k, v)]) @ props))" by auto
  ultimately show ?case using Cons.IH [of "target @ [(k, v)]"] p by simp
qed

lemma merge_order_lookup:
  assumes "distinct (map fst (own_props order))"
    and "distinct (map fst (own_props (js_or fullOrder (Obj []))))"
  shows "map_of (object_assign [] [order, js_or fullOrder (Obj [])])
           = map_of (own_props order) ++ map_of (own_props (js_or fullOrder (Obj [])))"
  using assms by (simp add: object_assign_def assign_from_def map_of_assign_props)

text \<open>
  C5. For a list snapshot and a detail record with one entry for a key each (as parsed
  JSON has), the merged order maps every key of the detail record to the detail record's
  value and every other key to the snapshot's value; when the detail record has no entry
  (the empty record that \<open>loadOrder\<close> returns when the fetch fails) the merged order is
  the snapshot. The worker stores this merge, of the snapshot and what \<open>loadOrder\<close>
  returns for the order, as the \<open>order\<close> of the slot.
\<close>

theorem merged_order_overlay:
  assumes "distinct (map fst (own_props order))"
    and "distinct (map fst (own_props (js_or fullOrder (Obj []))))"
  shows "member (merge_order order fullOrder) k =
           (if k \<in> set (map fst (own_props (js_or fullOrder (Obj []))))
            then own_lookup (own_props (js_or fullOrder (Obj []))) k
            else own_lookup (own_props order) k)
     \<and> (own_props (js_or fullOrder (Obj [])) = [] \<longrightarrow> merge_order order fullOrder = Obj (own_props order))
     \<and> (enrich_worker e net storeOpts order idx = Some (Inr slot) \<longrightarrow>
          member slot ''order'' = merge_order order (loadOrder e net (order_identifier order) storeOpts))"
proof (intro conjI impI)
  show "member (merge_order order fullOrder) k =
           (if k \<in> set (map fst (own_props (js_or fullOrder (Obj []))))
            then own_lookup (own_props (js_or fullOrder (Obj []))) k
            else own_lookup (own_props order) k)"
  proof (cases "map_of (own_props (js_or fullOrder (Obj []))) k")
    case None
    then have "k \<notin> set (map fst (own_props (js_or fullOrder (Obj []))))"
      by (simp add: map_of_eq_None_iff)
    then show ?thesis
      using None merge_order_lookup [OF assms]
      by (simp add: merge_order_def own_lookup_def map_add_def)
  next
    case (Some v)
    then have "k \<in> set (map fst (own_props (js_or fullOrder (Obj []))))"
      using map_of_eq_None_iff [of "own_props (js_or fullOrder (Obj []))" k] by simp
    then show ?thesis
      using Some merge_order_lookup [OF assms]
      by (simp add: merge_order_def own_lookup_def map_add_def)
  qed
next
  assume "own_props (js_or fullOrder (Obj [])) = []"
  then show "merge_order order fullOrder = Obj (own_props order)"
    using assign_props_fresh [of "[]" "own_props order"] assms(1)
    by (simp add: merge_order_def object_assign_def assign_from_def)
next
  assume "enrich_worker e net storeOpts order idx = Some (Inr slot)"
  then show "member slot ''order'' = merge_order order (loadOrder e net (order_identifier order) storeOpts)"
    by (auto simp: enrich_worker_def Let_def own_lookup_def split: if_splits option.splits)
qed


theorem merged_order_overlay_witness:
  "distinct (map fst (own_props order_7))
   \<and> distinct (map fst (own_props (js_or order_7_detail (Obj []))))
   \<and> member (merge_order order_7 order_7_detail) ''status'' = Str ''shipped''
   \<and> member (merge_order order_7 order_7_detail) ''created_at'' = Str ''2024-01-01''
   \<and> loadOrder shop net_full_then_down (order_identifier order_7) (Obj []) = Obj []
   \<and> merge_order order_7 (loadOrder shop net_full_then_down (order_identifier order_7) (Obj [])) = order_7
   \<and> enrich_worker shop net_store (Obj []) order_7 0 =
       Some (Inr (Obj [(''order'', merge_order order_7 order_7_detail),
                       (''line_items'', Arr [line_item_1]), (''shipments'', Arr [shipment_T1])]))
   \<and> loadOrder shop net_store (order_identifier order_7) (Obj []) = order_7_detail"
proof -
  have d1: "distinct (map fst (own_props order_7))" by code_simp
  have d2: "distinct (map fst (own_props (js_or order_7_detail (Obj []))))" by code_simp
  have d3: "distinct (map fst (own_props (js_or (Obj []) (Obj []))))" by code_simp
  have down: "loadOrder shop net_full_then_down (order_identifier order_7) (Obj []) = Obj []"
    by code_simp
  have up: "loadOrder shop net_store (order_identifier order_7) (Obj []) = order_7_detail"
    by code_simp
  have w: "enrich_worker shop net_store (Obj []) order_7 0 =
       Some (Inr (Obj [(''order'', merge_order order_7 order_7_detail),
                       (''line_items'', Arr [line_item_1]), (''shipments'', Arr [shipment_T1])]))"
    by code_simp
  have s: "member (merge_order order_7 order_7_detail) ''status'' = Str ''shipped''"
    using merged_order_overlay [OF d1 d2, of "''status''"]
    by (simp add: order_7_detail_def js_or_def own_lookup_def)
  have c: "member (merge_order order_7 order_7_detail) ''created_at'' = Str ''2024-01-01''"
    using merged_order_overlay [OF d1 d2, of "''created_at''"]
    by (simp add: order_7_detail_def order_7_def js_or_def own_lookup_def)
  have e: "merge_order order_7 (Obj []) = order_7"
    using merged_order_overlay [OF d1 d3, of "''id''"]
    by (simp add: js_or_def order_7_def)
  show ?thesis using d1 d2 down up w s c e by simp
qed


subsection \<open>The promise pool\<close>

lemma pool_inv_init: "pool_inv items worker c pool_init"
  by (simp add: pool_inv_def pool_init_def)

lemma pool_inv_take:
  assumes inv: "pool_inv items worker c s"
    and j: "j < c" "runners s j = Ready" and lt: "counter s < length items"
  shows "pool_inv items worker c
           (s\<lparr> counter := Suc (counter s), runners := (runners s)(j := Awaiting (counter s)) \<rparr>)"
  unfolding pool_inv_def
proof (intro conjI allI impI)
  let ?s' = "s\<lparr> counter := Suc (counter s), runners := (runners s)(j := Awaiting (counter s)) \<rparr>"
  show "counter ?s' \<le> length items" using lt by simp
  show "idx < counter ?s'" if "slots ?s' idx = Some v" for idx v
    using that inv by (simp add: pool_inv_def less_Suc_eq)
  show "pool_slot worker (items ! idx) idx = Some v" if "slots ?s' idx = Some v" for idx v
    using that inv by (simp add: pool_inv_def)
  show "idx < counter ?s'" if "runners ?s' k = Awaiting idx" for idx k
    using that inv by (cases "k = j") (auto simp: pool_inv_def less_Suc_eq)
  show "slots ?s' idx \<noteq> None \<or> (\<exists>k<c. runners ?s' k = Awaiting idx)" if "idx < counter ?s'" for idx
  proof (cases "idx = counter s")
    case True
    then show ?thesis using j(1) by auto
  next
    case False
    with that have "idx < counter s" by simp
    with inv have "slots s idx \<noteq> None \<or> (\<exists>k<c. runners s k = Awaiting idx)"
      by (simp add: pool_inv_def)
    then show ?thesis
    proof
      assume "slots s idx \<noteq> None"
      then show ?thesis by simp
    next
      assume "\<exists>k<c. runners s k = Awaiting idx"
      then obtain k where k: "k < c" "runners s k = Awaiting idx" by blast
      with j(2) have "k \<noteq> j" by auto
      with k show ?thesis by auto
    qed
  qed
  show "counter ?s' = length items" if "\<exists>k<c. runners ?s' k = Finished"
  proof -
    from that obtain k where k: "k < c" "runners ?s' k = Finished" by blast
    then have "k \<noteq> j" by auto
    with k have "runners s k = Finished" by simp
    with k(1) inv have "counter s = length items" by (auto simp: pool_inv_def)
    with lt show ?thesis by simp
  qed
qed

lemma pool_inv_settle:
  assumes inv: "pool_inv items worker c s"
    and j: "j < c" "runners s j = Awaiting idx"
    and v: "pool_slot worker (items ! idx) idx = Some v"
  shows "pool_inv items worker c
           (s\<lparr> slots := (slots s)(idx \<mapsto> v), runners := (runners s)(j := Ready) \<rparr>)"
  unfolding pool_inv_def
proof (intro conjI allI impI)
  let ?s' = "s\<lparr> slots := (slots s)(idx \<mapsto> v), runners := (runners s)(j := Ready) \<rparr>"
  from inv j(2) have taken: "idx < counter s" by (auto simp: pool_inv_def)
  show "counter ?s' \<le> length items" using inv by (simp add: pool_inv_def)
  show "i < counter ?s'" if "slots ?s' i = Some w" for i w
    using that inv taken by (cases "i = idx") (auto simp: pool_inv_def)
  show "pool_slot worker (items ! i) i = Some w" if "slots ?s' i = Some w" for i w
    using that inv v by (cases "i = idx") (auto simp: pool_inv_def)
  show "i < counter ?s'" if "runners ?s' k = Awaiting i" for i k
    using that inv by (cases "k = j") (auto simp: pool_inv_def)
  show "slots ?s' i \<noteq> None \<or> (\<exists>k<c. runners ?s' k = Awaiting i)" if "i < counter ?s'" for i
  proof (cases "i = idx")
    case True
    then show ?thesis by simp
  next
    case False
    from that inv have "slots s i \<noteq> None \<or> (\<exists>k<c. runners s k = Awaiting i)"
      by (simp add: pool_inv_def)
    then show ?thesis
    proof
      assume "slots s i \<noteq> None"
      then show ?thesis using False by simp
    next
      assume "\<exists>k<c. runners s k = Awaiting i"
      then obtain k where k: "k < c" "runners s k = Awaiting i" by blast
      with j(2) False have "k \<noteq> j" by auto
      with k show ?thesis by auto
    qed
  qed
  show "counter ?s' = length items" if "\<exists>k<c. runners ?s' k = Finished"
  proof -
    from that obtain k where k: "k < c" "runners ?s' k = Finished" by blast
    then have "k \<noteq> j" by auto
    with k have "runners s k = Finished" by simp
    with k(1) inv show ?thesis by (auto simp: pool_inv_def)
  qed
qed

lemma pool_inv_leave:
  assumes inv: "pool_inv items worker c s"
    and j: "j < c" "runners s j = Ready" and ge: "\<not> counter s < length items"
  shows "pool_inv items worker c (s\<lparr> runners := (runners s)(j := Finished) \<rparr>)"
  unfolding pool_inv_def
proof (intro conjI allI impI)
  let ?s' = "s\<lparr> runners := (runners s)(j := Finished) \<rparr>"
  show "counter ?s' \<le> length items" using inv by (simp add: pool_inv_def)
  show "i < counter ?s'" if "slots ?s' i = Some w" for i w
    using that inv by (simp add: pool_inv_def)
  show "pool_slot worker (items ! i) i = Some w" if "slots ?s' i = Some w" for i w
    using that inv by (simp add: pool_inv_def)
  show "i < counter ?s'" if "runners ?s' k = Awaiting i" for i k
    using that inv by (cases "k = j") (auto simp: pool_inv_def)
  show "slots ?s' i \<noteq> None \<or> (\<exists>k<c. runners ?s' k = Awaiting i)" if "i < counter ?s'" for i
  proof -
    from that inv have "slots s i \<noteq> None \<or> (\<exists>k<c. runners s k = Awaiting i)"
      by (simp add: pool_inv_def)
    then show ?thesis
    proof
      assume "slots s i \<noteq> None"
      then show ?thesis by simp
    next
      assume "\<exists>k<c. runners s k = Awaiting i"
      then obtain k where k: "k < c" "runners s k = Awaiting i" by blast
      with j(2) have "k \<noteq> j" by auto
      with k show ?thesis by auto
    qed
  qed
  show "counter ?s' = length items" if "\<exists>k<c. runners ?s' k = Finished"
    using inv ge by (simp add: pool_inv_def)
qed

lemma pool_inv_step:
  assumes "pool_inv items worker c s" and "pool_step items worker c s s'"
  shows "pool_inv items worker c s'"
  using assms(2,1)
  by cases (simp_all add: pool_inv_take pool_inv_settle pool_inv_leave)

lemma pool_inv_reach:
  assumes "rtranclp (pool_step items worker c) pool_init s"
  shows "pool_inv items worker c s"
  using assms
  by (induction rule: rtranclp_induct) (simp_all add: pool_inv_init pool_inv_step)

lemma pool_inv_done:
  assumes "pool_inv items worker c s" and "pool_done c s" and "0 < c"
  shows "counter s = length items"
    and "idx < length items \<Longrightarrow>
           \<exists>v. slots s idx = Some v \<and> pool_slot worker (items ! idx) idx = Some v"
proof -
  from assms(2,3) have "\<exists>k<c. runners s k = Finished" by (auto simp: pool_done_def)
  with assms(1) show n: "counter s = length items" by (simp add: pool_inv_def)
  assume "idx < length items"
  with n assms(1) have "slots s idx \<noteq> None \<or> (\<exists>k<c. runners s k = Awaiting idx)"
    by (simp add: pool_inv_def)
  moreover have "\<not> (\<exists>k<c. runners s k = Awaiting idx)"
    using assms(2) by (auto simp: pool_done_def)
  ultimately obtain v where v: "slots s idx = Some v" by auto
  with assms(1) have "pool_slot worker (items ! idx) idx = Some v" by (simp add: pool_inv_def)
  with v show "\<exists>v. slots s idx = Some v \<and> pool_slot worker (items ! idx) idx = Some v" by simp
qed

lemma collect_map_Some:
  "(\<And>x. x \<in> set xs \<Longrightarrow> f x = Some (g x)) \<Longrightarrow> collect (map f xs) = Some (map g xs)"
  by (induction xs) simp_all


lemma pool_run_sequential:
  assumes "\<And>idx. idx < length items \<Longrightarrow> worker (items ! idx) idx \<noteq> None"
    and "0 < c" and "counter s \<le> length items" and "runners s = (\<lambda>j. Ready)"
  shows "\<exists>s'. rtranclp (pool_step items worker c) s s' \<and> counter s' = length items
              \<and> runners s' = (\<lambda>j. Ready)"
  using assms(3,4)
proof (induction "length items - counter s" arbitrary: s)
  case 0
  then show ?case by auto
next
  case (Suc n)
  then have lt: "counter s < length items" by simp
  let ?t = "s\<lparr> counter := Suc (counter s), runners := (runners s)(0 := Awaiting (counter s)) \<rparr>"
  have step1: "pool_step items worker c s ?t"
    using assms(2) Suc.prems(2) lt by (intro pool_step.take) simp_all
  from assms(1) [OF lt] obtain out where "worker (items ! counter s) (counter s) = Some out"
    by blast
  then have "\<exists>v. pool_slot worker (items ! counter s) (counter s) = Some v"
    by (cases out) (simp_all add: pool_slot_def)
  then obtain v where v: "pool_slot worker (items ! counter s) (counter s) = Some v" ..
  let ?u = "?t\<lparr> slots := (slots ?t)(counter s \<mapsto> v), runners := (runners ?t)(0 := Ready) \<rparr>"
  have step2: "pool_step items worker c ?t ?u"
    using assms(2) v by (intro pool_step.settle [where idx = "counter s"]) simp_all
  have ready: "runners ?u = (\<lambda>j. Ready)"
    using Suc.prems(2) by (simp add: fun_eq_iff)
  have "length items - counter ?u = n" using Suc.hyps(2) by simp
  then have "n = length items - counter ?u" by simp
  from Suc.hyps(1) [OF this _ ready] lt
  obtain s' where "rtranclp (pool_step items worker c) ?u s'" "counter s' = length items"
    "runners s' = (\<lambda>j. Ready)"
    by auto
  with step1 step2 show ?case
    by (meson converse_rtranclp_into_rtranclp)
qed

lemma pool_run_leave:
  assumes "\<not> counter s < length items" and "k \<le> c"
    and "runners s = (\<lambda>j. if j < k then Finished else Ready)"
  shows "\<exists>s'. rtranclp (pool_step items worker c) s s' \<and> pool_done c s' \<and> counter s' = counter s"
  using assms
proof (induction "c - k" arbitrary: s k)
  case 0
  then have "pool_done c s" by (simp add: pool_done_def)
  then show ?case by auto
next
  case (Suc n)
  then have lt: "k < c" by simp
  let ?t = "s\<lparr> runners := (runners s)(k := Finished) \<rparr>"
  have step: "pool_step items worker c s ?t"
    using lt Suc.prems by (intro pool_step.leave) simp_all
  have rs: "runners ?t = (\<lambda>j. if j < Suc k then Finished else Ready)"
    using Suc.prems(3) by (auto simp: fun_eq_iff less_Suc_eq)
  have "n = c - Suc k" using Suc.hyps(2) by simp
  from Suc.hyps(1) [OF this _ _ rs] Suc.prems(1) lt
  obtain s' where "rtranclp (pool_step items worker c) ?t s'" "pool_done c s'" "counter s' = counter ?t"
    by auto
  with step show ?case
    by (auto intro: converse_rtranclp_into_rtranclp)
qed

lemma pool_completes:
  assumes "\<And>idx. idx < length items \<Longrightarrow> worker (items ! idx) idx \<noteq> None" and "0 < c"
  shows "\<exists>s. rtranclp (pool_step items worker c) pool_init s \<and> pool_done c s"
proof -
  have "\<exists>s'. rtranclp (pool_step items worker c) pool_init s' \<and> counter s' = length items
              \<and> runners s' = (\<lambda>j. Ready)"
    using assms
    by (intro pool_run_sequential [where s = pool_init and items = items and worker = worker and c = c])
       (simp_all add: pool_init_def)
  then obtain s1 where s1: "rtranclp (pool_step items worker c) pool_init s1"
    "counter s1 = length items" "runners s1 = (\<lambda>j. Ready)"
    by blast
  from pool_run_leave [of s1 items 0 c worker] s1
  obtain s2 where "rtranclp (pool_step items worker c) s1 s2" "pool_done c s2"
    by auto
  with s1(1) show ?thesis by (meson rtranclp_trans)
qed

lemma pool_result:
  assumes "rtranclp (pool_step items worker c) pool_init s" and "pool_done c s" and "0 < c"
  shows "counter s = length items"
    and "promisePool items worker c = Some (pool_array s)"
    and "idx < length items \<Longrightarrow>
           \<exists>out. worker (items ! idx) idx = Some out
                 \<and> slots s idx = Some (case out of Inl err \<Rightarrow> error_marker err | Inr r \<Rightarrow> r)"
proof -
  note inv = pool_inv_reach [OF assms(1)]
  note fin = pool_inv_done [OF inv assms(2,3)]
  show n: "counter s = length items" by (rule fin(1))
  have "collect (map (\<lambda>idx. pool_slot worker (items ! idx) idx) [0..<length items])
      = Some (map (\<lambda>idx. case slots s idx of None \<Rightarrow> Undefined | Some v \<Rightarrow> v) [0..<length items])"
  proof (rule collect_map_Some)
    fix idx assume "idx \<in> set [0..<length items]"
    then have "idx < length items" by simp
    from fin(2) [OF this] obtain v where "slots s idx = Some v"
      "pool_slot worker (items ! idx) idx = Some v"
      by blast
    then show "pool_slot worker (items ! idx) idx
        = Some (case slots s idx of None \<Rightarrow> Undefined | Some v \<Rightarrow> v)"
      by simp
  qed
  then show "promisePool items worker c = Some (pool_array s)"
    using assms(3) n by (simp add: promisePool_def pool_array_def)
  assume "idx < length items"
  from fin(2) [OF this] obtain v where v: "slots s idx = Some v"
      "pool_slot worker (items ! idx) idx = Some v"
    by blast
  show "\<exists>out. worker (items ! idx) idx = Some out
                 \<and> slots s idx = Some (case out of Inl err \<Rightarrow> error_marker err | Inr r \<Rightarrow> r)"
  proof (cases "worker (items ! idx) idx")
    case None
    with v(2) show ?thesis by (simp add: pool_slot_def)
  next
    case (Some out)
    with v show ?thesis by (cases out) (simp_all add: pool_slot_def)
  qed
qed

lemma weight_update:
  assumes "(j::nat) < c"
  shows "(\<Sum>k<c. runner_weight ((rs(j := x)) k)) + runner_weight (rs j)
           = (\<Sum>k<c. runner_weight (rs k)) + runner_weight x"
proof -
  have fin: "finite {..<c}" and mem: "j \<in> {..<c}" using assms by simp_all
  have rest: "(\<Sum>k\<in>{..<c} - {j}. runner_weight ((rs(j := x)) k))
            = (\<Sum>k\<in>{..<c} - {j}. runner_weight (rs k))"
    by (rule sum.cong) simp_all
  have "(\<Sum>k<c. runner_weight ((rs(j := x)) k))
          = runner_weight x + (\<Sum>k\<in>{..<c} - {j}. runner_weight ((rs(j := x)) k))"
    using sum.remove [OF fin mem, of "\<lambda>k. runner_weight ((rs(j := x)) k)"] by simp
  moreover have "(\<Sum>k<c. runner_weight (rs k))
          = runner_weight (rs j) + (\<Sum>k\<in>{..<c} - {j}. runner_weight (rs k))"
    using sum.remove [OF fin mem, of "\<lambda>k. runner_weight (rs k)"] by simp
  ultimately show ?thesis using rest by simp
qed

lemma pool_step_decreases:
  assumes "pool_step items worker c s s'"
  shows "pool_measure items c s' < pool_measure items c s"
  using assms
proof cases
  case (take j)
  from weight_update [OF take(2), of "runners s" "Awaiting (counter s)"] take(3,4)
  show ?thesis unfolding take(1) pool_measure_def by simp
next
  case (settle j idx v)
  from weight_update [OF settle(2), of "runners s" Ready] settle(3)
  show ?thesis unfolding settle(1) pool_measure_def by simp
next
  case (leave j)
  from weight_update [OF leave(2), of "runners s" Finished] leave(3)
  show ?thesis unfolding leave(1) pool_measure_def by simp
qed

lemma pool_progress:
  assumes settles: "\<And>idx. idx < length items \<Longrightarrow> worker (items ! idx) idx \<noteq> None"
    and inv: "pool_inv items worker c s" and "\<not> pool_done c s"
  shows "\<exists>s'. pool_step items worker c s s'"
proof -
  from assms(3) obtain j where j: "j < c" "runners s j \<noteq> Finished"
    by (auto simp: pool_done_def)
  show ?thesis
  proof (cases "runners s j")
    case Ready
    show ?thesis
    proof (cases "counter s < length items")
      case True
      with j(1) Ready show ?thesis by (blast intro: pool_step.take)
    next
      case False
      with j(1) Ready show ?thesis by (blast intro: pool_step.leave)
    qed
  next
    case (Awaiting idx)
    with inv have "idx < counter s" "counter s \<le> length items" by (auto simp: pool_inv_def)
    then have "idx < length items" by simp
    from settles [OF this] obtain out where "worker (items ! idx) idx = Some out" by blast
    then have "\<exists>v. pool_slot worker (items ! idx) idx = Some v"
      by (cases out) (simp_all add: pool_slot_def)
    with j(1) Awaiting show ?thesis by (blast intro: pool_step.settle)
  next
    case Finished
    with j(2) show ?thesis by simp
  qed
qed

text \<open>
  C4. For every list of order snapshots and every worker, with at least one runner: every
  step of the pool reduces the work that is left, so every run is finite; when every
  worker call settles, a run that has not ended can go on, and the pool can run to its
  end; and at the end of every run, however the runners interleaved, the result has one
  slot for each order, the slot of an order whose worker threw is the error marker, the
  object \<open>{ error: String(err) }\<close> with the text of what was thrown, and the slot of
  every other order is what its worker returned. So one order's failure does not abort
  the batch. The function \<open>promisePool\<close> computes this result; for the handler's worker
  and an order that is \<open>null\<close> the text is
  \<open>TypeError: Cannot read properties of null (reading 'id')\<close>.
\<close>

theorem promisePool_isolates_failures:
  assumes "0 < c"
  shows "(\<forall>s s'. pool_step items worker c s s' \<longrightarrow> pool_measure items c s' < pool_measure items c s)
     \<and> ((\<forall>idx<length items. worker (items ! idx) idx \<noteq> None) \<longrightarrow>
           (\<forall>s. rtranclp (pool_step items worker c) pool_init s \<and> \<not> pool_done c s
                 \<longrightarrow> (\<exists>s'. pool_step items worker c s s'))
           \<and> (\<exists>s. rtranclp (pool_step items worker c) pool_init s \<and> pool_done c s))
     \<and> (\<forall>s. rtranclp (pool_step items worker c) pool_init s \<and> pool_done c s \<longrightarrow>
           length (pool_array s) = length items
           \<and> promisePool items worker c = Some (pool_array s)
           \<and> (\<forall>idx<length items.
                 (\<forall>err. worker (items ! idx) idx = Some (Inl err) \<longrightarrow> pool_array s ! idx = Obj [(''error'', Str err)])
                 \<and> (\<forall>r. worker (items ! idx) idx = Some (Inr r) \<longrightarrow> pool_array s ! idx = r)
                 \<and> worker (items ! idx) idx \<noteq> None))"
proof -
  have finite_runs: "\<forall>s s'. pool_step items worker c s s'
      \<longrightarrow> pool_measure items c s' < pool_measure items c s"
    by (simp add: pool_step_decreases)
  have goes_on: "\<forall>s. rtranclp (pool_step items worker c) pool_init s \<and> \<not> pool_done c s
                 \<longrightarrow> (\<exists>s'. pool_step items worker c s s')"
    if "\<forall>idx<length items. worker (items ! idx) idx \<noteq> None"
    using that pool_progress [of items worker c] pool_inv_reach [of items worker c] by blast
  have ends: "\<exists>s. rtranclp (pool_step items worker c) pool_init s \<and> pool_done c s"
    if "\<forall>idx<length items. worker (items ! idx) idx \<noteq> None"
    using that pool_completes [of items worker c] assms by blast
  have result: "length (pool_array s) = length items
           \<and> promisePool items worker c = Some (pool_array s)
           \<and> (\<forall>idx<length items.
                 (\<forall>err. worker (items ! idx) idx = Some (Inl err) \<longrightarrow> pool_array s ! idx = Obj [(''error'', Str err)])
                 \<and> (\<forall>r. worker (items ! idx) idx = Some (Inr r) \<longrightarrow> pool_array s ! idx = r)
                 \<and> worker (items ! idx) idx \<noteq> None)"
    if run: "rtranclp (pool_step items worker c) pool_init s \<and> pool_done c s" for s
  proof (intro conjI allI impI)
    note res = pool_result [OF conjunct1 [OF run] conjunct2 [OF run] assms]
    show "length (pool_array s) = length items" using res(1) by (simp add: pool_array_def)
    show "promisePool items worker c = Some (pool_array s)" by (rule res(2))
    fix idx assume idx: "idx < length items"
    from res(3) [OF idx] obtain out where out: "worker (items ! idx) idx = Some out"
      "slots s idx = Some (case out of Inl err \<Rightarrow> error_marker err | Inr r \<Rightarrow> r)"
      by blast
    have at: "pool_array s ! idx = (case out of Inl err \<Rightarrow> error_marker err | Inr r \<Rightarrow> r)"
      using idx res(1) out(2) by (simp add: pool_array_def)
    show "worker (items ! idx) idx \<noteq> None" using out(1) by simp
    show "pool_array s ! idx = Obj [(''error'', Str err)]" if "worker (items ! idx) idx = Some (Inl err)" for err
    proof -
      from that out(1) have "out = Inl err" by simp
      with at show ?thesis by (simp add: error_marker_def)
    qed
    show "pool_array s ! idx = r" if "worker (items ! idx) idx = Some (Inr r)" for r
    proof -
      from that out(1) have "out = Inr r" by simp
      with at show ?thesis by simp
    qed
  qed
  show ?thesis using finite_runs goes_on ends result by blast
qed

theorem promisePool_isolates_failures_witness:
  "promisePool orders_3 (enrich_worker shop net_store (Obj [])) 5 = Some slots_3
   \<and> (\<exists>s. rtranclp (pool_step orders_3 (enrich_worker shop net_store (Obj [])) 5) pool_init s
           \<and> pool_done 5 s \<and> pool_array s = slots_3)
   \<and> enrich_worker shop net_store (Obj []) (orders_3 ! 0) 0
       = Some (Inl (''TypeError: Cannot read properties of null (reading '' @ [CHR 0x27] @ ''id'' @ [CHR 0x27] @ '')''))
   \<and> slots_3 ! 0
       = Obj [(''error'', Str (''TypeError: Cannot read properties of null (reading '' @ [CHR 0x27] @ ''id'' @ [CHR 0x27] @ '')''))]"
proof -
  let ?w = "enrich_worker shop net_store (Obj [])"
  have w0: "?w (orders_3 ! 0) 0
      = Some (Inl (''TypeError: Cannot read properties of null (reading '' @ [CHR 0x27] @ ''id'' @ [CHR 0x27] @ '')''))"
    by code_simp
  have w1: "?w (orders_3 ! 1) 1 = Some (Inr (slots_3 ! 1))" by code_simp
  have w2: "?w (orders_3 ! 2) 2 = Some (Inr (slots_3 ! 2))" by code_simp
  have three: "length orders_3 = 3" by (simp add: orders_3_def)
  have settles: "\<forall>idx<length orders_3. ?w (orders_3 ! idx) idx \<noteq> None"
  proof (intro allI impI)
    fix idx assume "idx < length orders_3"
    then consider "idx = 0" | "idx = 1" | "idx = 2"
      unfolding three by (auto simp: less_Suc_eq numeral_3_eq_3)
    then show "?w (orders_3 ! idx) idx \<noteq> None"
      using w0 w1 w2 by cases simp_all
  qed
  have pool: "promisePool orders_3 ?w 5 = Some slots_3" by code_simp
  note inst = promisePool_isolates_failures [of 5 orders_3 ?w]
  from inst settles obtain s
    where run: "rtranclp (pool_step orders_3 ?w 5) pool_init s \<and> pool_done 5 s"
    by auto
  with inst have "promisePool orders_3 ?w 5 = Some (pool_array s)" by simp
  with pool have "pool_array s = slots_3" by simp
  with run have "\<exists>s. rtranclp (pool_step orders_3 ?w 5) pool_init s
           \<and> pool_done 5 s \<and> pool_array s = slots_3"
    by blast
  moreover have "slots_3 ! 0
      = Obj [(''error'', Str (''TypeError: Cannot read properties of null (reading '' @ [CHR 0x27] @ ''id'' @ [CHR 0x27] @ '')''))]"
    by (simp add: slots_3_def)
  ultimately show ?thesis using pool w0 by simp
qed

end
